theory Spec2Isabelle
  imports Main "HOL-Library.AList"
begin

section \<open>What zeroconf and the standard library hand to the listener\<close>

text \<open>
  A TXT property of a resolved service is a \<open>str\<close> or a \<open>bytes\<close> value; the keys are
  the ASCII byte strings \<open>b"md"\<close>, \<open>b"id"\<close> and \<open>b"fn"\<close>.
\<close>

type_synonym bytes = string

datatype prop_value = PStr string | PBytes bytes

record service_info =
  properties :: "bytes \<rightharpoonup> prop_value"
  parsed_addresses :: "string list"
  server :: string
  port :: int

text \<open>
  One call of \<open>zconf.get_service_info(typ, name)\<close> raises \<open>IOError\<close> or returns a
  \<open>ServiceInfo\<close> or \<open>None\<close>; an exception of another class, which would leave the
  handler before it has touched the registry, is not among the outcomes. The zeroconf client is outside the repository: a handler
  is given it as the function from the type, the name and the number of calls the handler
  has already made to the outcome of the next call.
\<close>

datatype response = IOError | Answer "service_info option"

type_synonym zconf = "string \<Rightarrow> string \<Rightarrow> nat \<Rightarrow> response"

datatype error = UnicodeDecodeError | ValueError | KeyError | AttributeError
  | ChromecastConnectionError | RuntimeError | OtherError

text \<open>
  \<open>bytes.decode("utf-8")\<close> and the constructor \<open>uuid.UUID\<close> belong to the standard
  library; both are parameters, \<open>None\<close> standing for the exception they raise
  (\<open>UnicodeDecodeError\<close>, \<open>ValueError\<close>).
\<close>

record 'u stdlib =
  decode :: "bytes \<Rightarrow> string option"
  UUID :: "string \<Rightarrow> 'u option"

section \<open>The registry: \<open>CastListener\<close>\<close>

text \<open>
  A value of \<open>self.services\<close> is the tuple
  \<open>(names, uuid, model_name, friendly_name, host, port)\<close>; the fields are named after
  the variables that fill them. The dictionary keeps insertion order, which
  \<open>remove_service\<close> scans, so it is an association list with one entry per key.
\<close>

record 'u cast_service =
  svc_names :: "string set"
  svc_uuid :: 'u
  svc_model_name :: "string option"
  svc_friendly_name :: "string option"
  svc_host :: string
  svc_port :: int

record ('u, 'cb) CastListener =
  services :: "('u \<times> 'u cast_service) list"
  add_callback :: "'cb option"
  remove_callback :: "'cb option"
  update_callback :: "'cb option"

definition CastListener_init ::
  "'cb option \<Rightarrow> 'cb option \<Rightarrow> 'cb option \<Rightarrow> ('u, 'cb) CastListener" where
  "CastListener_init add_cb remove_cb update_cb =
     \<lparr>services = [], add_callback = add_cb, remove_callback = remove_cb,
      update_callback = update_cb\<rparr>"

definition count :: "('u, 'cb) CastListener \<Rightarrow> nat" where
  "count self = length (services self)"

definition devices :: "('u, 'cb) CastListener \<Rightarrow> 'u cast_service list" where
  "devices self = map snd (services self)"

text \<open>
  What a handler does to the outside, in order: the queries it sends to zeroconf and the
  callbacks it calls, each with its arguments (\<open>callback(uuid, name)\<close>, and
  \<open>remove_callback(uuid, name, service)\<close> with a third one).
\<close>

datatype ('u, 'cb) effect =
  Get_service_info string string
  | Call 'cb 'u string "'u cast_service option"

text \<open>
  A handler returns nothing; it leaves the listener changed, has had its effects, and
  may have raised.
\<close>

record ('u, 'cb) outcome =
  listener :: "('u, 'cb) CastListener"
  effects :: "('u, 'cb) effect list"
  raised :: "error option"

definition call :: "'cb option \<Rightarrow> 'u \<Rightarrow> string \<Rightarrow> 'u cast_service option \<Rightarrow> ('u, 'cb) effect list" where
  "call callback uuid name service =
     (case callback of None \<Rightarrow> [] | Some cb \<Rightarrow> [Call cb uuid name service])"

subsection \<open>\<open>remove_service\<close>\<close>

text \<open>
  The loop stops at the first entry whose name set holds \<open>name\<close>. The tuple
  \<open>service\<close> shares its set with the entry, so the tuple passed to the remove callback
  has the name already taken out.
\<close>

definition remove_service ::
  "('u, 'cb) CastListener \<Rightarrow> zconf \<Rightarrow> string \<Rightarrow> string \<Rightarrow> ('u, 'cb) outcome" where
  "remove_service self zconf typ name =
     (case find (\<lambda>(uuid, services_for_uuid). name \<in> svc_names services_for_uuid)
             (services self) of
        None \<Rightarrow> \<lparr>listener = self, effects = [], raised = None\<rparr>
      | Some (uuid, services_for_uuid) \<Rightarrow>
          (let service = services_for_uuid\<lparr>svc_names := svc_names services_for_uuid - {name}\<rparr>;
               service_removed = (svc_names service = {})
           in \<lparr>listener = self\<lparr>services :=
                   (if service_removed then AList.delete uuid (services self)
                    else AList.update uuid service (services self))\<rparr>,
               effects =
                   (if service_removed then call (remove_callback self) uuid name (Some service)
                    else call (update_callback self) uuid name None),
               raised = None\<rparr>))"

subsection \<open>\<open>_add_update_service\<close>\<close>

text \<open>
  The resolution loop \<open>while service is None and tries < 4\<close>: an \<open>IOError\<close> leaves the
  loop at once. The second component is the number of queries sent.
\<close>

function poll :: "zconf \<Rightarrow> string \<Rightarrow> string \<Rightarrow> service_info option \<Rightarrow> nat
    \<Rightarrow> service_info option \<times> nat" where
  "poll zconf typ name service tries =
     (if service = None \<and> tries < 4 then
        (case zconf typ name tries of
           IOError \<Rightarrow> (service, Suc tries)
         | Answer a \<Rightarrow> poll zconf typ name a (Suc tries))
      else (service, tries))"
  by pat_completeness auto
termination
  by (relation "measure (\<lambda>(zconf, typ, name, service, tries). 4 - tries)") auto

declare poll.simps [simp del]

definition get_value :: "'u stdlib \<Rightarrow> service_info \<Rightarrow> string \<Rightarrow> error + string option" where
  "get_value py service key =
     (case properties service key of
        None \<Rightarrow> Inr None
      | Some (PStr s) \<Rightarrow> Inr (Some s)
      | Some (PBytes b) \<Rightarrow>
          (case decode py b of None \<Rightarrow> Inl UnicodeDecodeError | Some s \<Rightarrow> Inr (Some s)))"

text \<open>
  The first part of \<open>_add_update_service\<close>, up to \<open>uuid = UUID(uuid)\<close>: it reads
  nothing of the listener. The event is given up (the two early \<open>return\<close>s), an
  exception leaves the handler, or the identity, the model name, the friendly name, the
  host and the port are known. The second component is the number of queries sent.
\<close>

datatype 'u resolution =
  Gave_up
  | Raised error
  | Resolved 'u "string option" "string option" string int

definition resolve :: "'u stdlib \<Rightarrow> zconf \<Rightarrow> string \<Rightarrow> string \<Rightarrow> 'u resolution \<times> nat" where
  "resolve py zconf typ name =
     (case poll zconf typ name None 0 of (service, queries) \<Rightarrow>
        ((case service of
           None \<Rightarrow> Gave_up
         | Some info \<Rightarrow>
             (let addresses = parsed_addresses info;
                  host = (case addresses of [] \<Rightarrow> server info | a # _ \<Rightarrow> a)
              in case get_value py info ''md'' of
                   Inl e \<Rightarrow> Raised e
                 | Inr model_name \<Rightarrow>
              (case get_value py info ''id'' of
                   Inl e \<Rightarrow> Raised e
                 | Inr uuid \<Rightarrow>
              (case get_value py info ''fn'' of
                   Inl e \<Rightarrow> Raised e
                 | Inr friendly_name \<Rightarrow>
              (case uuid of
                   None \<Rightarrow> Gave_up
                 | Some text \<Rightarrow>
                     if text = [] then Gave_up
                     else
              (case UUID py text of
                   None \<Rightarrow> Raised ValueError
                 | Some uuid \<Rightarrow>
                     Resolved uuid model_name friendly_name host (port info))))))),
         queries))"

text \<open>
  The second part: \<open>setdefault\<close> appends the entry of a new identity and returns the
  entry of a known one; the name is added to its set, and the entry is replaced in place
  by the tuple with the new metadata. The three steps are one \<open>AList.update\<close>. The
  callback is the last thing the handler does.
\<close>

definition add_update_service ::
  "'u stdlib \<Rightarrow> ('u, 'cb) CastListener \<Rightarrow> zconf \<Rightarrow> string \<Rightarrow> string \<Rightarrow> 'cb option
     \<Rightarrow> ('u, 'cb) outcome" where
  "add_update_service py self zconf typ name callback =
     (case resolve py zconf typ name of (resolution, queries) \<Rightarrow>
        (let asked = replicate queries (Get_service_info typ name) in
         case resolution of
           Gave_up \<Rightarrow> \<lparr>listener = self, effects = asked, raised = None\<rparr>
         | Raised e \<Rightarrow> \<lparr>listener = self, effects = asked, raised = Some e\<rparr>
         | Resolved uuid model_name friendly_name host service_port \<Rightarrow>
             (let services_for_uuid =
                    (case map_of (services self) uuid of
                       None \<Rightarrow> ({name}, uuid)
                     | Some s \<Rightarrow> (svc_names s, svc_uuid s));
                  entry = \<lparr>svc_names = insert name (fst services_for_uuid),
                           svc_uuid = snd services_for_uuid,
                           svc_model_name = model_name,
                           svc_friendly_name = friendly_name,
                           svc_host = host,
                           svc_port = service_port\<rparr>
              in \<lparr>listener = self\<lparr>services := AList.update uuid entry (services self)\<rparr>,
                  effects = asked @ call callback uuid name None,
                  raised = None\<rparr>)))"

definition update_service ::
  "'u stdlib \<Rightarrow> ('u, 'cb) CastListener \<Rightarrow> zconf \<Rightarrow> string \<Rightarrow> string \<Rightarrow> ('u, 'cb) outcome" where
  "update_service py self zconf typ name =
     add_update_service py self zconf typ name (update_callback self)"

definition add_service ::
  "'u stdlib \<Rightarrow> ('u, 'cb) CastListener \<Rightarrow> zconf \<Rightarrow> string \<Rightarrow> string \<Rightarrow> ('u, 'cb) outcome" where
  "add_service py self zconf typ name =
     add_update_service py self zconf typ name (add_callback self)"

subsection \<open>The browser's events\<close>

text \<open>
  \<open>start_discovery\<close> hands the listener to a \<open>zeroconf.ServiceBrowser\<close>, whose thread
  calls one of the three handlers for each change it sees, with the client, the service
  type and the announcement name. Each handler starts on the listener that the handler
  before it left; an exception that leaves a handler has changed nothing after the point
  at which it was raised.
\<close>

datatype event =
  Add_service zconf string string
  | Update_service zconf string string
  | Remove_service zconf string string

fun dispatch :: "'u stdlib \<Rightarrow> ('u, 'cb) CastListener \<Rightarrow> event \<Rightarrow> ('u, 'cb) outcome" where
  "dispatch py self (Add_service zconf typ name) = add_service py self zconf typ name"
| "dispatch py self (Update_service zconf typ name) = update_service py self zconf typ name"
| "dispatch py self (Remove_service zconf typ name) = remove_service self zconf typ name"

fun deliver :: "'u stdlib \<Rightarrow> ('u, 'cb) CastListener \<Rightarrow> event list \<Rightarrow> ('u, 'cb) CastListener" where
  "deliver py self [] = self"
| "deliver py self (ev # evs) = deliver py (listener (dispatch py self ev)) evs"

subsection \<open>Reading the registry\<close>

definition registry :: "('u, 'cb) CastListener \<Rightarrow> 'u \<rightharpoonup> 'u cast_service" where
  "registry self = map_of (services self)"

definition names_of :: "('u, 'cb) CastListener \<Rightarrow> 'u \<Rightarrow> string set" where
  "names_of self uuid = (case registry self uuid of None \<Rightarrow> {} | Some s \<Rightarrow> svc_names s)"

text \<open>The identity whose entry \<open>remove_service\<close> finds for a name: the first that holds it.\<close>

definition holder :: "('u, 'cb) CastListener \<Rightarrow> string \<Rightarrow> 'u option" where
  "holder self name =
     map_option fst (find (\<lambda>(uuid, services_for_uuid). name \<in> svc_names services_for_uuid)
        (services self))"

definition wf_services :: "('u \<times> 'u cast_service) list \<Rightarrow> bool" where
  "wf_services al \<longleftrightarrow> distinct (map fst al) \<and> (\<forall>(u, s) \<in> set al. svc_names s \<noteq> {})"

subsection \<open>Event sequences about one identity\<close>

text \<open>
  An add or update event refers to an identity when its resolution yields that identity; a
  remove event carries a name only. \<open>names_added\<close> and \<open>names_removed\<close> collect the
  names of the two kinds of events; \<open>names_after\<close> goes through the events in order,
  inserting the name of an add or update and deleting the name of a remove;
  \<open>added_again\<close> says that some name is added after a removal of it.
\<close>

fun refers_to :: "'u stdlib \<Rightarrow> 'u \<Rightarrow> event \<Rightarrow> bool" where
  "refers_to py uuid (Add_service zconf typ name) =
     (case fst (resolve py zconf typ name) of Resolved u m f h p \<Rightarrow> u = uuid | _ \<Rightarrow> False)"
| "refers_to py uuid (Update_service zconf typ name) =
     (case fst (resolve py zconf typ name) of Resolved u m f h p \<Rightarrow> u = uuid | _ \<Rightarrow> False)"
| "refers_to py uuid (Remove_service zconf typ name) = True"

fun names_added :: "event list \<Rightarrow> string set" where
  "names_added [] = {}"
| "names_added (Add_service zconf typ name # evs) = insert name (names_added evs)"
| "names_added (Update_service zconf typ name # evs) = insert name (names_added evs)"
| "names_added (Remove_service zconf typ name # evs) = names_added evs"

fun names_removed :: "event list \<Rightarrow> string set" where
  "names_removed [] = {}"
| "names_removed (Add_service zconf typ name # evs) = names_removed evs"
| "names_removed (Update_service zconf typ name # evs) = names_removed evs"
| "names_removed (Remove_service zconf typ name # evs) = insert name (names_removed evs)"

fun names_after :: "string set \<Rightarrow> event list \<Rightarrow> string set" where
  "names_after names [] = names"
| "names_after names (Add_service zconf typ name # evs) = names_after (insert name names) evs"
| "names_after names (Update_service zconf typ name # evs) = names_after (insert name names) evs"
| "names_after names (Remove_service zconf typ name # evs) = names_after (names - {name}) evs"

fun added_again :: "event list \<Rightarrow> bool" where
  "added_again [] = False"
| "added_again (Add_service zconf typ name # evs) = added_again evs"
| "added_again (Update_service zconf typ name # evs) = added_again evs"
| "added_again (Remove_service zconf typ name # evs) =
     (name \<in> names_added evs \<or> added_again evs)"

definition only_key :: "'u \<Rightarrow> ('u, 'cb) CastListener \<Rightarrow> bool" where
  "only_key uuid self \<longleftrightarrow> wf_services (services self) \<and> fst ` set (services self) \<subseteq> {uuid}"

subsection \<open>Reading the effects\<close>

fun is_query :: "('u, 'cb) effect \<Rightarrow> bool" where
  "is_query (Get_service_info typ name) = True"
| "is_query (Call cb uuid name service) = False"

definition attempts :: "('u, 'cb) effect list \<Rightarrow> nat" where
  "attempts effs = length (filter is_query effs)"

definition calls :: "('u, 'cb) effect list \<Rightarrow> ('u, 'cb) effect list" where
  "calls effs = filter (\<lambda>e. \<not> is_query e) effs"

section \<open>Query sessions\<close>

text \<open>
  A session is the state its callback closes over: the listener, the dictionary
  \<open>cc_list\<close>, the caller's two collections (a list each, or \<open>None\<close>) and the event
  \<open>discover_complete\<close>. The callback changes the caller's own lists, so the state holds
  their contents and the caller reads them back from it. \<open>constructed\<close> is not a
  variable of the program: it lists the tuples that \<open>Chromecast\<close> objects have been
  constructed from, in order.
\<close>

record ('u, 'v) session =
  session_listener :: "('u, unit) CastListener"
  cc_list :: "('u \<times> 'v) list"
  uuids :: "'u list option"
  friendly_names :: "string list option"
  discover_complete :: bool
  constructed :: "'u cast_service list"

type_synonym ('u, 'v) callback = "('u, 'v) session \<Rightarrow> 'u \<Rightarrow> string \<Rightarrow> ('u, 'v) session \<times> error option"

definition session_init :: "string list option \<Rightarrow> 'u list option \<Rightarrow> ('u, 'v) session" where
  "session_init names ids =
     \<lparr>session_listener = CastListener_init (Some ()) None None, cc_list = [],
      uuids = ids, friendly_names = names, discover_complete = False, constructed = []\<rparr>"

text \<open>The truth value of a collection that may be \<open>None\<close>, and its elements.\<close>

definition truthy :: "'a list option \<Rightarrow> bool" where
  "truthy xs = (case xs of None \<Rightarrow> False | Some l \<Rightarrow> l \<noteq> [])"

definition wanted :: "'a list option \<Rightarrow> 'a list" where
  "wanted xs = (case xs of None \<Rightarrow> [] | Some l \<Rightarrow> l)"

text \<open>
  The callbacks run inside the handler, as the last thing it does, on the listener as the
  handler has left it. An exception that leaves the callback leaves the handler.
\<close>

fun run_calls :: "('u, 'v) callback \<Rightarrow> ('u, unit) effect list \<Rightarrow> ('u, 'v) session
    \<Rightarrow> ('u, 'v) session \<times> error option" where
  "run_calls callback [] st = (st, None)"
| "run_calls callback (Get_service_info typ name # effs) st = run_calls callback effs st"
| "run_calls callback (Call cb uuid name service # effs) st =
     (case callback st uuid name of
        (st', Some e) \<Rightarrow> (st', Some e)
      | (st', None) \<Rightarrow> run_calls callback effs st')"

definition session_event :: "('u, 'v) callback \<Rightarrow> 'u stdlib \<Rightarrow> ('u, 'v) session \<Rightarrow> event
    \<Rightarrow> ('u, 'v) session \<times> error option" where
  "session_event callback py st ev =
     (let out = dispatch py (session_listener st) ev in
      case run_calls callback (effects out) (st\<lparr>session_listener := listener out\<rparr>) of
        (st', Some e) \<Rightarrow> (st', Some e)
      | (st', None) \<Rightarrow> (st', raised out))"

fun session_run :: "('u, 'v) callback \<Rightarrow> 'u stdlib \<Rightarrow> ('u, 'v) session \<Rightarrow> event list
    \<Rightarrow> ('u, 'v) session" where
  "session_run callback py st [] = st"
| "session_run callback py st (ev # evs) =
     session_run callback py (fst (session_event callback py st ev)) evs"

subsection \<open>\<open>discover_listed_chromecasts\<close>\<close>

text \<open>
  The callback stores \<open>listener.services[uuid]\<close> itself in \<open>cc_list\<close>: a tuple whose
  first component is the very set object that the registry's entry holds, so that a name
  added to the entry or removed from it later shows in the stored tuple as well. The
  registry makes a set object when it creates the entry of an identity that has none,
  carries it over into every later tuple of that entry, and empties it just before it
  deletes the entry; from then on nothing changes it. A set object is therefore named by
  its identity and the number of entries that had been created for the identity when it
  was made, \<open>made\<close> counts these entries, and a stored tuple holds the name of its set
  object, not the names in it.
\<close>

type_synonym 'u set_object = "'u \<times> nat"

record 'u held =
  held_names :: "'u set_object"
  held_uuid :: 'u
  held_model_name :: "string option"
  held_friendly_name :: "string option"
  held_host :: string
  held_port :: int

definition hold :: "('u \<Rightarrow> nat) \<Rightarrow> 'u \<Rightarrow> 'u cast_service \<Rightarrow> 'u held" where
  "hold made uuid service =
     \<lparr>held_names = (uuid, made uuid), held_uuid = svc_uuid service,
      held_model_name = svc_model_name service,
      held_friendly_name = svc_friendly_name service,
      held_host = svc_host service, held_port = svc_port service\<rparr>"

text \<open>
  The count after a handler has run: an identity that was no key before and is one now
  has had an entry created. What a set object contains: the names of the registry's entry
  while it is the set object of that entry, and nothing once the entry has been deleted.
\<close>

definition born :: "('u, 'cb) CastListener \<Rightarrow> ('u, 'cb) CastListener \<Rightarrow> ('u \<Rightarrow> nat)
    \<Rightarrow> 'u \<Rightarrow> nat" where
  "born before after made =
     (\<lambda>uuid. if uuid \<notin> fst ` set (services before) \<and> uuid \<in> fst ` set (services after)
             then Suc (made uuid) else made uuid)"

definition contents :: "('u, 'cb) CastListener \<Rightarrow> ('u \<Rightarrow> nat) \<Rightarrow> 'u set_object
    \<Rightarrow> string set" where
  "contents self made object =
     (case object of (uuid, n) \<Rightarrow> if n = made uuid then names_of self uuid else {})"

definition read_held :: "('u, 'cb) CastListener \<Rightarrow> ('u \<Rightarrow> nat) \<Rightarrow> 'u held
    \<Rightarrow> 'u cast_service" where
  "read_held self made tuple =
     \<lparr>svc_names = contents self made (held_names tuple), svc_uuid = held_uuid tuple,
      svc_model_name = held_model_name tuple,
      svc_friendly_name = held_friendly_name tuple,
      svc_host = held_host tuple, svc_port = held_port tuple\<rparr>"

text \<open>A tuple without a friendly name matches no wanted name.\<close>

definition listed_callback :: "('u \<Rightarrow> nat) \<Rightarrow> ('u, 'u held) callback" where
  "listed_callback made st uuid name =
     (case map_of (services (session_listener st)) uuid of
        None \<Rightarrow> (st, Some KeyError)
      | Some service \<Rightarrow>
          (let friendly_name = svc_friendly_name service;
               st1 = (if truthy (uuids st) \<and> uuid \<in> set (wanted (uuids st))
                      then st\<lparr>cc_list := AList.update uuid (hold made uuid service) (cc_list st),
                              uuids := map_option (remove1 uuid) (uuids st)\<rparr>
                      else st);
               st2 = (case friendly_name of
                        None \<Rightarrow> st1
                      | Some fn \<Rightarrow>
                          if truthy (friendly_names st1) \<and> fn \<in> set (wanted (friendly_names st1))
                          then st1\<lparr>cc_list := AList.update uuid (hold made uuid service)
                                                (cc_list st1),
                                   friendly_names := map_option (remove1 fn) (friendly_names st1)\<rparr>
                          else st1)
           in (if \<not> truthy (friendly_names st2) \<and> \<not> truthy (uuids st2)
               then st2\<lparr>discover_complete := True\<rparr> else st2, None)))"

text \<open>
  One event of the session: the handler changes the registry, which may create an entry,
  and then calls the callback. The session goes on after an exception like the listener.
\<close>

definition listed_event :: "'u stdlib \<Rightarrow> ('u, 'u held) session \<times> ('u \<Rightarrow> nat) \<Rightarrow> event
    \<Rightarrow> ('u, 'u held) session \<times> ('u \<Rightarrow> nat)" where
  "listed_event py s ev =
     (case s of (st, made) \<Rightarrow>
        (let made' = born (session_listener st)
                       (listener (dispatch py (session_listener st) ev)) made
         in (fst (session_event (listed_callback made') py st ev), made')))"

fun listed_run :: "'u stdlib \<Rightarrow> ('u, 'u held) session \<times> ('u \<Rightarrow> nat) \<Rightarrow> event list
    \<Rightarrow> ('u, 'u held) session \<times> ('u \<Rightarrow> nat)" where
  "listed_run py s [] = s"
| "listed_run py s (ev # evs) = listed_run py (listed_event py s ev) evs"

definition listed_session :: "'u stdlib \<Rightarrow> string list option \<Rightarrow> 'u list option \<Rightarrow> event list
    \<Rightarrow> ('u, 'u held) session \<times> ('u \<Rightarrow> nat)" where
  "listed_session py names ids evs = listed_run py (session_init names ids, \<lambda>uuid. 0) evs"

text \<open>
  The call returns when \<open>discover_complete\<close> is set or the timeout has passed; \<open>evs\<close> are
  the events that the browser's thread has handled by then. The result is the values of
  \<open>cc_list\<close>, each tuple with the names that its set object contains at that moment; the
  final state holds what the caller finds in its two collections.
\<close>

definition discover_listed_chromecasts :: "'u stdlib \<Rightarrow> string list option \<Rightarrow> 'u list option
    \<Rightarrow> event list \<Rightarrow> 'u cast_service list \<times> ('u, 'u held) session" where
  "discover_listed_chromecasts py names ids evs =
     (case listed_session py names ids evs of (st, made) \<Rightarrow>
        (map (\<lambda>(uuid, tuple). read_held (session_listener st) made tuple) (cc_list st), st))"

subsection \<open>\<open>discover_chromecasts\<close>\<close>

definition count_callback :: "nat option \<Rightarrow> ('u, 'v) callback" where
  "count_callback max_devices st uuid name =
     (case max_devices of
        None \<Rightarrow> (st, None)
      | Some n \<Rightarrow>
          (if n \<le> count (session_listener st) then st\<lparr>discover_complete := True\<rparr> else st, None))"

definition discover_chromecasts :: "'u stdlib \<Rightarrow> nat option \<Rightarrow> event list
    \<Rightarrow> 'u cast_service list \<times> ('u, 'u cast_service) session" where
  "discover_chromecasts py max_devices evs =
     (let st = session_run (count_callback max_devices) py (session_init None None) evs
      in (devices (session_listener st), st))"

subsection \<open>\<open>get_listed_chromecasts\<close>\<close>

text \<open>
  \<open>Chromecast(host=None, device=device, ...)\<close> connects to the device. Whether the
  constructor raises is decided by \<open>get_device_status\<close> and \<open>SocketClient\<close>, which
  like the tables \<open>CAST_TYPES\<close> and \<open>CAST_MANUFACTURERS\<close> are outside the source read
  here. The call is the function from the number of objects constructed so far and the
  tuple the device status is built from to the object or the exception raised.
  \<open>model_name.lower()\<close> raises \<open>AttributeError\<close> for a tuple without a model name.
\<close>

type_synonym ('u, 'c) chromecast = "nat \<Rightarrow> 'u cast_service \<Rightarrow> error + 'c"

definition get_chromecast_from_service :: "('u, 'c) chromecast \<Rightarrow> nat \<Rightarrow> 'u cast_service
    \<Rightarrow> error + 'c" where
  "get_chromecast_from_service chromecast n service =
     (case svc_model_name service of
        None \<Rightarrow> Inl AttributeError
      | Some model_name \<Rightarrow> chromecast n service)"

text \<open>
  \<open>if uuid not in cc_list: cc_list[uuid] = get_chromecast_from_uuid(uuid)\<close>, where
  \<open>get_chromecast_from_uuid\<close> passes \<open>listener.services[uuid]\<close> on. The constructor
  is reached, and the tuple entered in \<open>constructed\<close>, only when the tuple has a model
  name.
\<close>

definition store_chromecast :: "('u, 'c) chromecast \<Rightarrow> ('u, 'c) session \<Rightarrow> 'u
    \<Rightarrow> ('u, 'c) session \<times> error option" where
  "store_chromecast chromecast st uuid =
     (if uuid \<in> fst ` set (cc_list st) then (st, None)
      else
        (case map_of (services (session_listener st)) uuid of
           None \<Rightarrow> (st, Some KeyError)
         | Some service \<Rightarrow>
             (case svc_model_name service of
                None \<Rightarrow> (st, Some AttributeError)
              | Some model_name \<Rightarrow>
                  (let st' = st\<lparr>constructed := constructed st @ [service]\<rparr> in
                   case get_chromecast_from_service chromecast (length (constructed st)) service of
                     Inl e \<Rightarrow> (st', Some e)
                   | Inr cc \<Rightarrow> (st'\<lparr>cc_list := AList.update uuid cc (cc_list st')\<rparr>, None)))))"

text \<open>The body of the \<open>try\<close> statement: an exception skips what follows it.\<close>

definition connecting_body :: "('u, 'c) chromecast \<Rightarrow> string option \<Rightarrow> ('u, 'c) callback" where
  "connecting_body chromecast friendly_name st uuid name =
     (case (if truthy (uuids st) \<and> uuid \<in> set (wanted (uuids st))
            then (case store_chromecast chromecast st uuid of
                    (st', Some e) \<Rightarrow> (st', Some e)
                  | (st', None) \<Rightarrow> (st'\<lparr>uuids := map_option (remove1 uuid) (uuids st')\<rparr>, None))
            else (st, None)) of
        (st1, Some e) \<Rightarrow> (st1, Some e)
      | (st1, None) \<Rightarrow>
     (case (case friendly_name of
              None \<Rightarrow> (st1, None)
            | Some fn \<Rightarrow>
                if truthy (friendly_names st1) \<and> fn \<in> set (wanted (friendly_names st1))
                then (case store_chromecast chromecast st1 uuid of
                        (st', Some e) \<Rightarrow> (st', Some e)
                      | (st', None) \<Rightarrow>
                          (st'\<lparr>friendly_names := map_option (remove1 fn) (friendly_names st')\<rparr>,
                           None))
                else (st1, None)) of
        (st2, Some e) \<Rightarrow> (st2, Some e)
      | (st2, None) \<Rightarrow>
          (if \<not> truthy (friendly_names st2) \<and> \<not> truthy (uuids st2)
           then st2\<lparr>discover_complete := True\<rparr> else st2, None)))"

definition connecting_callback :: "('u, 'c) chromecast \<Rightarrow> ('u, 'c) callback" where
  "connecting_callback chromecast st uuid name =
     (case map_of (services (session_listener st)) uuid of
        None \<Rightarrow> (st, Some KeyError)
      | Some service \<Rightarrow>
          (case connecting_body chromecast (svc_friendly_name service) st uuid name of
             (st', Some e) \<Rightarrow> (st', if e = ChromecastConnectionError then None else Some e)
           | (st', None) \<Rightarrow> (st', None)))"

definition get_listed_chromecasts :: "'u stdlib \<Rightarrow> ('u, 'c) chromecast \<Rightarrow> string list option
    \<Rightarrow> 'u list option \<Rightarrow> event list \<Rightarrow> 'c list \<times> ('u, 'c) session" where
  "get_listed_chromecasts py chromecast names ids evs =
     (let st = session_run (connecting_callback chromecast) py (session_init names ids) evs
      in (map snd (cc_list st), st))"

subsection \<open>\<open>get_chromecasts\<close>\<close>

text \<open>
  What a call has set in motion, in order: a listener, a zeroconf client, a browser.
\<close>

datatype step = Made_listener | Made_zeroconf | Started_discovery

definition session_start :: "step list" where
  "session_start = [Made_listener, Made_zeroconf, Started_discovery]"

text \<open>The argument \<open>callback\<close>: \<open>callable(callback)\<close> holds or not (\<open>None\<close> is not callable).\<close>

datatype 'f argument = Not_callable | Callable 'f

datatype 'c returned = Found "'c list" | Browsing

text \<open>
  The loop of the blocking branch: a \<open>ChromecastConnectionError\<close> skips the service, any
  other exception leaves the function.
\<close>

fun connect_all :: "('u, 'c) chromecast \<Rightarrow> nat \<Rightarrow> 'u cast_service list \<Rightarrow> 'c list
    \<Rightarrow> error + 'c list" where
  "connect_all chromecast n [] found = Inr found"
| "connect_all chromecast n (service # rest) found =
     (case get_chromecast_from_service chromecast n service of
        Inl e \<Rightarrow>
          if e = ChromecastConnectionError then connect_all chromecast (Suc n) rest found
          else Inl e
      | Inr cc \<Rightarrow> connect_all chromecast (Suc n) rest (found @ [cc]))"

definition get_chromecasts :: "'u stdlib \<Rightarrow> ('u, 'c) chromecast \<Rightarrow> event list \<Rightarrow> bool
    \<Rightarrow> 'f argument \<Rightarrow> (error + 'c returned) \<times> step list" where
  "get_chromecasts py chromecast evs blocking callback =
     (if blocking then
        (case discover_chromecasts py None evs of (found_services, st) \<Rightarrow>
           (case connect_all chromecast 0 found_services [] of
              Inl e \<Rightarrow> (Inl e, session_start)
            | Inr found \<Rightarrow> (Inr (Found found), session_start)))
      else
        (case callback of
           Not_callable \<Rightarrow> (Inl ValueError, [])
         | Callable f \<Rightarrow> (Inr Browsing, session_start)))"

subsection \<open>\<open>stop_discovery\<close>\<close>

text \<open>
  \<open>browser.cancel()\<close> and \<open>browser.zc.close()\<close> belong to zeroconf: each returns
  (\<open>None\<close>) or raises. \<open>RuntimeError\<close> stands for that class and its subclasses, which
  \<open>except RuntimeError\<close> catches. The result lists the calls made and what leaves the
  function.
\<close>

datatype browser_call = Cancel | Close

definition stop_discovery :: "error option \<Rightarrow> error option \<Rightarrow> browser_call list \<times> error option" where
  "stop_discovery cancel_raises close_raises =
     (case cancel_raises of
        None \<Rightarrow> ([Cancel, Close], close_raises)
      | Some e \<Rightarrow>
          if e = RuntimeError then ([Cancel, Close], close_raises)
          else ([Cancel], Some e))"

subsection \<open>Reading a session\<close>

text \<open>
  The add events whose announcement is resolved, with the identity, the model name and the
  friendly name they carry; the identities and the friendly names so announced.
\<close>

fun announced :: "'u stdlib \<Rightarrow> event \<Rightarrow> ('u \<times> string option \<times> string option) option" where
  "announced py (Add_service zconf typ name) =
     (case fst (resolve py zconf typ name) of
        Resolved uuid model_name friendly_name host p \<Rightarrow> Some (uuid, model_name, friendly_name)
      | _ \<Rightarrow> None)"
| "announced py (Update_service zconf typ name) = None"
| "announced py (Remove_service zconf typ name) = None"

fun announced_ids :: "'u stdlib \<Rightarrow> event list \<Rightarrow> 'u set" where
  "announced_ids py [] = {}"
| "announced_ids py (ev # evs) =
     (case announced py ev of
        None \<Rightarrow> announced_ids py evs
      | Some (uuid, model_name, friendly_name) \<Rightarrow> insert uuid (announced_ids py evs))"

fun announced_names :: "'u stdlib \<Rightarrow> event list \<Rightarrow> string set" where
  "announced_names py [] = {}"
| "announced_names py (ev # evs) =
     (case announced py ev of
        Some (uuid, model_name, Some friendly_name) \<Rightarrow> insert friendly_name (announced_names py evs)
      | _ \<Rightarrow> announced_names py evs)"

definition listens :: "('u, 'v) session \<Rightarrow> bool" where
  "listens st \<longleftrightarrow> add_callback (session_listener st) = Some ()
     \<and> remove_callback (session_listener st) = None
     \<and> update_callback (session_listener st) = None"

text \<open>
  The tuple stored under an identity carries that identity; a constructor that refuses an
  identity raises \<open>ChromecastConnectionError\<close> for every tuple of it, at every call.
\<close>

definition keys_ok :: "('u \<times> 'u cast_service) list \<Rightarrow> bool" where
  "keys_ok al \<longleftrightarrow> list_all (\<lambda>(k, s). svc_uuid s = k) al"


definition safe :: "'u \<Rightarrow> ('u, 'c) session \<Rightarrow> bool" where
  "safe u st \<longleftrightarrow> listens st \<and> keys_ok (services (session_listener st))
     \<and> u \<notin> fst ` set (cc_list st)"

text \<open>
  What one event may do to the two remaining collections: nothing unless it is a resolved
  add event, which takes its identity and its friendly name out of them where they are.
  A constructor is accepting when it never raises; an event has a model when it is not a
  resolved add event without the property \<open>md\<close>.
\<close>

definition drained :: "'u stdlib \<Rightarrow> ('u, 'v) session \<Rightarrow> event \<Rightarrow> ('u, 'v) session \<Rightarrow> bool" where
  "drained py st ev st' \<longleftrightarrow>
     (case announced py ev of
        None \<Rightarrow> uuids st' = uuids st \<and> friendly_names st' = friendly_names st
      | Some (uuid, model_name, friendly_name) \<Rightarrow>
          uuids st' = (if uuid \<in> set (wanted (uuids st))
                       then map_option (remove1 uuid) (uuids st) else uuids st) \<and>
          friendly_names st' =
            (case friendly_name of
               None \<Rightarrow> friendly_names st
             | Some fn \<Rightarrow>
                 if fn \<in> set (wanted (friendly_names st))
                 then map_option (remove1 fn) (friendly_names st) else friendly_names st))"

definition accepting :: "('u, 'c) chromecast \<Rightarrow> bool" where
  "accepting chromecast \<longleftrightarrow> (\<forall>n service. \<exists>cc. chromecast n service = Inr cc)"

definition has_model :: "'u stdlib \<Rightarrow> event \<Rightarrow> bool" where
  "has_model py ev =
     (case announced py ev of
        Some (uuid, None, friendly_name) \<Rightarrow> False
      | _ \<Rightarrow> True)"

section \<open>Concrete inputs\<close>

text \<open>
  A standard library that decodes every byte string to itself and takes every
  non-empty text for an identity, and a zeroconf client that answers the first query with
  the announcement of one device.
\<close>

definition text_py :: "string stdlib" where
  "text_py = \<lparr>decode = Some, UUID = Some\<rparr>"

definition announce :: "string \<Rightarrow> string \<Rightarrow> string \<Rightarrow> zconf" where
  "announce ident model friendly = (\<lambda>typ name tries. Answer (Some
     \<lparr>properties = [''id'' \<mapsto> PStr ident, ''md'' \<mapsto> PBytes model, ''fn'' \<mapsto> PStr friendly],
      parsed_addresses = [''192.168.1.20''], server = ''cast.local.'', port = 8009\<rparr>))"

definition cast_type :: string where
  "cast_type = ''_googlecast._tcp.local.''"

definition living_room :: "(string, string) CastListener" where
  "living_room = deliver text_py
     (CastListener_init (Some ''on_add'') (Some ''on_remove'') (Some ''on_update''))
     [Add_service (announce ''U1'' ''Chromecast'' ''Living Room'') cast_type ''n1'',
      Add_service (announce ''U1'' ''Chromecast'' ''Living Room'') cast_type ''n2'']"

definition last_name :: "(string, string) CastListener" where
  "last_name = listener (remove_service living_room (\<lambda>typ name tries. IOError) cast_type ''n1'')"

definition never_answers :: zconf where
  "never_answers = (\<lambda>typ name tries. Answer None)"

definition fails_second :: zconf where
  "fails_second = (\<lambda>typ name tries. if tries = 0 then Answer None else IOError)"

definition always_fails :: zconf where
  "always_fails = (\<lambda>typ name tries. IOError)"

definition handover :: "event list" where
  "handover =
     [Add_service (announce ''U1'' ''Chromecast'' ''Living Room'') cast_type ''n1'',
      Add_service (announce ''U1'' ''Chromecast'' ''Living Room'') cast_type ''n2'',
      Remove_service always_fails cast_type ''n1'']"

definition two_names :: "event list" where
  "two_names =
     [Add_service (announce ''U1'' ''Chromecast'' ''Living Room'') cast_type ''n1'',
      Add_service (announce ''U1'' ''Chromecast'' ''Living Room'') cast_type ''n2'']"

definition departed :: "event list" where
  "departed =
     [Add_service (announce ''U1'' ''Chromecast'' ''Living Room'') cast_type ''n1'',
      Remove_service always_fails cast_type ''n1'']"

definition reannounced :: "event list" where
  "reannounced =
     [Add_service (announce ''U1'' ''Chromecast'' ''Living Room'') cast_type ''n1'',
      Remove_service always_fails cast_type ''n1'',
      Add_service (announce ''U1'' ''Chromecast'' ''Living Room'') cast_type ''n1'']"

definition renamed :: "event list" where
  "renamed =
     [Add_service (announce ''U1'' ''Chromecast'' ''Kitchen'') cast_type ''n1'',
      Update_service (announce ''U1'' ''Chromecast'' ''Living Room'') cast_type ''n1'']"

definition picky :: "(string, string) chromecast" where
  "picky = (\<lambda>n service.
     if svc_uuid service = ''U1'' then Inl ChromecastConnectionError
     else Inr (svc_uuid service))"

definition two_devices :: "event list" where
  "two_devices =
     [Add_service (announce ''U1'' ''Chromecast'' ''Living Room'') cast_type ''n1'',
      Add_service (announce ''U2'' ''Chromecast'' ''Kitchen'') cast_type ''n2'']"

definition welcoming :: "(string, string) chromecast" where
  "welcoming = (\<lambda>n service. Inr (svc_uuid service))"

definition one_device :: "event list" where
  "one_device = [Add_service (announce ''U1'' ''Chromecast'' ''Living Room'') cast_type ''n1'']"

section \<open>The registry keeps exactly the identities that have a name\<close>

lemma set_update_subset: "set (AList.update k v al) \<subseteq> insert (k, v) (set al)"
  by (induction al) auto

lemma set_delete_subset: "set (AList.delete k al) \<subseteq> set al"
  by (auto simp: AList.delete_eq)

lemma wf_update:
  "wf_services al \<Longrightarrow> svc_names v \<noteq> {} \<Longrightarrow> wf_services (AList.update k v al)"
  unfolding wf_services_def using set_update_subset [of k v al]
  by (auto simp: distinct_update)

lemma wf_delete: "wf_services al \<Longrightarrow> wf_services (AList.delete k al)"
  unfolding wf_services_def using set_delete_subset [of k al]
  by (auto simp: distinct_delete)

lemma wf_remove_service:
  "wf_services (services self) \<Longrightarrow>
   wf_services (services (listener (remove_service self zconf typ name)))"
  by (auto simp: remove_service_def Let_def wf_update wf_delete split: option.splits)

lemma wf_add_update_service:
  "wf_services (services self) \<Longrightarrow>
   wf_services (services (listener (add_update_service py self zconf typ name callback)))"
  by (auto simp: add_update_service_def Let_def wf_update
      split: option.splits prod.splits resolution.splits)

lemma wf_dispatch:
  "wf_services (services self) \<Longrightarrow> wf_services (services (listener (dispatch py self ev)))"
  by (cases ev)
    (simp_all add: add_service_def update_service_def wf_add_update_service wf_remove_service)

lemma wf_deliver:
  "wf_services (services self) \<Longrightarrow> wf_services (services (deliver py self evs))"
  by (induction evs arbitrary: self) (simp_all add: wf_dispatch)

lemma wf_init: "wf_services (services (CastListener_init a r c))"
  by (simp add: wf_services_def CastListener_init_def)

lemma registry_key_iff:
  "wf_services (services self) \<Longrightarrow>
   uuid \<in> dom (registry self) \<longleftrightarrow> names_of self uuid \<noteq> {}"
  by (auto simp: registry_def names_of_def wf_services_def dest!: map_of_SomeD
      split: option.splits)

lemma holder_entry:
  assumes "distinct (map fst (services self))" and "holder self name = Some uuid"
  shows "\<exists>s. find (\<lambda>(uuid, services_for_uuid). name \<in> svc_names services_for_uuid)
              (services self) = Some (uuid, s)
            \<and> registry self uuid = Some s \<and> name \<in> svc_names s"
proof -
  from assms(2) obtain s where
    f: "find (\<lambda>(uuid, services_for_uuid). name \<in> svc_names services_for_uuid)
          (services self) = Some (uuid, s)"
    by (auto simp: holder_def)
  then have "(uuid, s) \<in> set (services self)" and n: "name \<in> svc_names s"
    by (auto simp: find_Some_iff in_set_conv_nth)
  with assms(1) have "registry self uuid = Some s"
    by (simp add: registry_def)
  with f n show ?thesis by blast
qed

lemma remove_last_name:
  assumes "wf_services (services self)" and "holder self name = Some uuid"
    and "names_of self uuid = {name}"
  shows "uuid \<notin> dom (registry (listener (remove_service self zconf typ name)))"
proof -
  from assms(1) have "distinct (map fst (services self))"
    by (simp add: wf_services_def)
  from holder_entry [OF this assms(2)] obtain s where
    f: "find (\<lambda>(uuid, services_for_uuid). name \<in> svc_names services_for_uuid)
          (services self) = Some (uuid, s)"
    and r: "registry self uuid = Some s"
    by blast
  from r assms(3) have "svc_names s = {name}"
    by (simp add: names_of_def)
  with f show ?thesis
    by (simp add: remove_service_def registry_def delete_conv')
qed

lemma poll_announce:
  "poll (announce i m f) typ name None 0 = (Some
     \<lparr>properties = [''id'' \<mapsto> PStr i, ''md'' \<mapsto> PBytes m, ''fn'' \<mapsto> PStr f],
      parsed_addresses = [''192.168.1.20''], server = ''cast.local.'', port = 8009\<rparr>, 1)"
  by (simp add: poll.simps announce_def)

lemma resolve_announce:
  "i \<noteq> [] \<Longrightarrow> resolve text_py (announce i m f) typ name
     = (Resolved i (Some m) (Some f) ''192.168.1.20'' 8009, 1)"
  by (simp add: resolve_def poll_announce get_value_def text_py_def)

text \<open>
  C1. Start from an empty registry and let the browser deliver any events at all. Then an
  identity is a key of the registry exactly when its name set is not empty; and if
  \<open>remove_service\<close> is now called with the only name of the identity that holds it, the
  identity is no longer a key afterwards.
\<close>

theorem registry_invariant:
  "(let self = deliver py (CastListener_init add_cb remove_cb update_cb) evs in
     (uuid \<in> dom (registry self) \<longleftrightarrow> names_of self uuid \<noteq> {}) \<and>
     (holder self name = Some uuid \<and> names_of self uuid = {name} \<longrightarrow>
        uuid \<notin> dom (registry (listener (remove_service self zconf typ name)))))"
  using wf_deliver [OF wf_init, of py add_cb remove_cb update_cb evs]
  by (simp add: Let_def registry_key_iff remove_last_name)

theorem registry_invariant_witness:
  "(let self = deliver text_py (CastListener_init (Some ''on_add'') None None)
       [Add_service (announce ''U1'' ''Chromecast'' ''Living Room'') cast_type ''n1''] in
     (holder self ''n1'' = Some ''U1'' \<and> names_of self ''U1'' = {''n1''}) \<and>
        ''U1'' \<notin> dom (registry (listener (remove_service self (\<lambda>typ name tries. IOError)
           cast_type ''n1''))))"
  using registry_invariant [of text_py "Some ''on_add''" None None
      "[Add_service (announce ''U1'' ''Chromecast'' ''Living Room'') cast_type ''n1'']"
      "''U1''" "''n1''" "\<lambda>typ name tries. IOError" cast_type]
  by (simp add: Let_def add_service_def add_update_service_def CastListener_init_def
      resolve_announce call_def holder_def names_of_def registry_def)

section \<open>What one call of \<open>remove_service\<close> does\<close>

lemma holder_None_iff:
  assumes "distinct (map fst (services self))"
  shows "holder self name = None \<longleftrightarrow> (\<forall>uuid. name \<notin> names_of self uuid)"
proof
  assume h: "holder self name = None"
  show "\<forall>uuid. name \<notin> names_of self uuid"
  proof (intro allI notI)
    fix uuid assume "name \<in> names_of self uuid"
    then obtain s where "registry self uuid = Some s" and "name \<in> svc_names s"
      by (auto simp: names_of_def split: option.splits)
    then have "(uuid, s) \<in> set (services self)"
      by (auto simp: registry_def dest: map_of_SomeD)
    with \<open>name \<in> svc_names s\<close> h show False
      by (auto simp: holder_def find_None_iff)
  qed
next
  assume a: "\<forall>uuid. name \<notin> names_of self uuid"
  show "holder self name = None"
  proof (rule ccontr)
    assume "holder self name \<noteq> None"
    then obtain uuid where "holder self name = Some uuid" by auto
    from holder_entry [OF assms this] obtain s where
      "registry self uuid = Some s" and "name \<in> svc_names s"
      by blast
    then have "name \<in> names_of self uuid"
      by (simp add: names_of_def)
    with a show False by blast
  qed
qed

text \<open>
  C2. A name held by no entry: \<open>remove_service\<close> changes nothing and calls nothing. A
  name held by some entry: it is taken out of the name set of the first entry that holds
  it. If that was the entry's only name, the entry is deleted and the remove callback, if
  there is one, is called exactly once, with the identity, the name and the entry's tuple
  (its metadata as last stored, its name set by now empty); no other callback is called.
  Otherwise the entry stays with the remaining names and the update callback, if there is
  one, is called exactly once, and the remove callback is not. In both cases every other
  entry is as before and nothing is raised.
\<close>

theorem remove_service_behaviour:
  assumes "distinct (map fst (services self))"
  shows "(holder self name = None \<longleftrightarrow> (\<forall>uuid. name \<notin> names_of self uuid)) \<and>
    (case holder self name of
       None \<Rightarrow> remove_service self zconf typ name = \<lparr>listener = self, effects = [], raised = None\<rparr>
     | Some uuid \<Rightarrow>
        (case registry self uuid of
           None \<Rightarrow> False
         | Some s \<Rightarrow>
             name \<in> svc_names s \<and>
             (let out = remove_service self zconf typ name;
                  left = s\<lparr>svc_names := svc_names s - {name}\<rparr>
              in raised out = None \<and>
                 add_callback (listener out) = add_callback self \<and>
                 remove_callback (listener out) = remove_callback self \<and>
                 update_callback (listener out) = update_callback self \<and>
                 (if svc_names s = {name}
                  then registry (listener out) = (registry self)(uuid := None) \<and>
                       effects out = (case remove_callback self of
                                        None \<Rightarrow> []
                                      | Some cb \<Rightarrow> [Call cb uuid name (Some left)])
                  else registry (listener out) = (registry self)(uuid \<mapsto> left) \<and>
                       effects out = (case update_callback self of
                                        None \<Rightarrow> []
                                      | Some cb \<Rightarrow> [Call cb uuid name None])))))"
proof (cases "holder self name")
  case None
  then have "find (\<lambda>(uuid, services_for_uuid). name \<in> svc_names services_for_uuid)
      (services self) = None"
    by (simp add: holder_def)
  then have "remove_service self zconf typ name = \<lparr>listener = self, effects = [], raised = None\<rparr>"
    by (simp add: remove_service_def)
  with None holder_None_iff [OF assms, of name] show ?thesis by simp
next
  case (Some uuid)
  from holder_entry [OF assms Some] obtain s where
    f: "find (\<lambda>(uuid, services_for_uuid). name \<in> svc_names services_for_uuid)
          (services self) = Some (uuid, s)"
    and r: "registry self uuid = Some s" and n: "name \<in> svc_names s"
    by blast
  from n have e: "svc_names s - {name} = {} \<longleftrightarrow> svc_names s = {name}" by auto
  have "holder self name \<noteq> None" using Some by simp
  with holder_None_iff [OF assms, of name] have h: "\<not> (\<forall>uuid. name \<notin> names_of self uuid)"
    by simp
  show ?thesis
    using Some r n f e h
    by (auto simp: remove_service_def Let_def registry_def delete_conv' update_conv' call_def
        split: option.splits)
qed


lemma living_room_value:
  "living_room = \<lparr>services = [(''U1'', \<lparr>svc_names = {''n1'', ''n2''}, svc_uuid = ''U1'',
       svc_model_name = Some ''Chromecast'', svc_friendly_name = Some ''Living Room'',
       svc_host = ''192.168.1.20'', svc_port = 8009\<rparr>)],
     add_callback = Some ''on_add'', remove_callback = Some ''on_remove'',
     update_callback = Some ''on_update''\<rparr>"
  by (auto simp: living_room_def add_service_def add_update_service_def CastListener_init_def
      resolve_announce call_def)

lemma last_name_value:
  "last_name = \<lparr>services = [(''U1'', \<lparr>svc_names = {''n2''}, svc_uuid = ''U1'',
       svc_model_name = Some ''Chromecast'', svc_friendly_name = Some ''Living Room'',
       svc_host = ''192.168.1.20'', svc_port = 8009\<rparr>)],
     add_callback = Some ''on_add'', remove_callback = Some ''on_remove'',
     update_callback = Some ''on_update''\<rparr>"
  by (simp add: last_name_def living_room_value remove_service_def call_def)

theorem remove_service_behaviour_witness:
  "distinct (map fst (services living_room)) \<and>
   holder living_room ''n1'' = Some ''U1'' \<and>
   names_of (listener (remove_service living_room always_fails cast_type ''n1'')) ''U1'' = {''n2''} \<and>
   effects (remove_service living_room always_fails cast_type ''n1'')
     = [Call ''on_update'' ''U1'' ''n1'' None] \<and>
   distinct (map fst (services last_name)) \<and>
   holder last_name ''n2'' = Some ''U1'' \<and>
   registry (listener (remove_service last_name always_fails cast_type ''n2'')) ''U1'' = None \<and>
   effects (remove_service last_name always_fails cast_type ''n2'')
     = [Call ''on_remove'' ''U1'' ''n2''
          (Some \<lparr>svc_names = {}, svc_uuid = ''U1'', svc_model_name = Some ''Chromecast'',
             svc_friendly_name = Some ''Living Room'', svc_host = ''192.168.1.20'',
             svc_port = 8009\<rparr>)]"
  using remove_service_behaviour [of living_room "''n1''" always_fails cast_type]
    remove_service_behaviour [of last_name "''n2''" always_fails cast_type]
  by (simp add: living_room_value last_name_value holder_def registry_def names_of_def Let_def)

section \<open>Resolution that fails\<close>

lemma poll_fails_at:
  assumes "k < 4" and "\<forall>i<k. zconf typ name i = Answer None" and "zconf typ name k = IOError"
  shows "tries \<le> k \<Longrightarrow> poll zconf typ name None tries = (None, Suc k)"
proof (induction "k - tries" arbitrary: tries)
  case 0
  then have "tries = k" by simp
  with assms show ?case by (simp add: poll.simps)
next
  case (Suc d)
  then have lt: "tries < k" by simp
  with assms have a: "zconf typ name tries = Answer None" and "tries < 4" by auto
  from Suc lt have "poll zconf typ name None (Suc tries) = (None, Suc k)" by simp
  with a \<open>tries < 4\<close> show ?case by (subst poll.simps) simp
qed

lemma poll_no_answer:
  assumes "\<forall>i<4. zconf typ name i = Answer None"
  shows "tries \<le> 4 \<Longrightarrow> poll zconf typ name None tries = (None, 4)"
proof (induction "4 - tries" arbitrary: tries)
  case 0
  then show ?case by (simp add: poll.simps)
next
  case (Suc d)
  then have lt: "tries < 4" by simp
  with assms have a: "zconf typ name tries = Answer None" by simp
  from Suc lt have "poll zconf typ name None (Suc tries) = (None, 4)" by simp
  with a lt show ?case by (subst poll.simps) simp
qed

text \<open>
  C5, as amended. An \<open>IOError\<close> ends the resolution loop: when the query number
  \<open>k + 1\<close> (of at most four) raises after \<open>k\<close> queries that returned nothing, exactly
  \<open>k + 1\<close> queries have been sent, one if the first raises. When every query returns
  nothing, exactly four are sent. Either way the event is dropped: the listener is as
  before, no callback is called and nothing is raised.
\<close>

theorem io_failure_drops_event:
  "(k < 4 \<and> (\<forall>i<k. zconf typ name i = Answer None) \<and> zconf typ name k = IOError \<longrightarrow>
      add_update_service py self zconf typ name callback
        = \<lparr>listener = self, effects = replicate (Suc k) (Get_service_info typ name),
           raised = None\<rparr>) \<and>
   ((\<forall>i<4. zconf typ name i = Answer None) \<longrightarrow>
      add_update_service py self zconf typ name callback
        = \<lparr>listener = self, effects = replicate 4 (Get_service_info typ name),
           raised = None\<rparr>)"
proof (intro conjI impI)
  assume "k < 4 \<and> (\<forall>i<k. zconf typ name i = Answer None) \<and> zconf typ name k = IOError"
  then have "poll zconf typ name None 0 = (None, Suc k)"
    using poll_fails_at [of k zconf "typ" name 0] by simp
  then show "add_update_service py self zconf typ name callback
        = \<lparr>listener = self, effects = replicate (Suc k) (Get_service_info typ name),
           raised = None\<rparr>"
    by (simp add: add_update_service_def resolve_def)
next
  assume "\<forall>i<4. zconf typ name i = Answer None"
  then have "poll zconf typ name None 0 = (None, 4)"
    using poll_no_answer [of zconf "typ" name 0] by simp
  then show "add_update_service py self zconf typ name callback
        = \<lparr>listener = self, effects = replicate 4 (Get_service_info typ name),
           raised = None\<rparr>"
    by (simp add: add_update_service_def resolve_def)
qed

theorem io_failure_drops_event_witness:
  "list_all (\<lambda>i. fails_second cast_type ''n1'' i = Answer None) [0..<1] \<and>
   fails_second cast_type ''n1'' 1 = IOError \<and>
   add_service text_py living_room fails_second cast_type ''n1''
     = \<lparr>listener = living_room,
        effects = [Get_service_info cast_type ''n1'', Get_service_info cast_type ''n1''],
        raised = None\<rparr> \<and>
   list_all (\<lambda>i. never_answers cast_type ''n1'' i = Answer None) [0..<4] \<and>
   attempts (effects (update_service text_py living_room never_answers cast_type ''n1'')) = 4 \<and>
   listener (update_service text_py living_room never_answers cast_type ''n1'') = living_room"
  using io_failure_drops_event [of 1 fails_second cast_type "''n1''" text_py living_room
      "add_callback living_room"]
    io_failure_drops_event [of 0 never_answers cast_type "''n1''" text_py living_room
      "update_callback living_room"]
  by (simp add: add_service_def update_service_def fails_second_def never_answers_def
      attempts_def list_all_iff)

text \<open>
  C5 as stated fails: a client that raises \<open>IOError\<close> at every query is asked once, not
  four times.
\<close>

theorem four_attempts_counterexample:
  "always_fails cast_type ''n1'' 0 = IOError \<and> always_fails cast_type ''n1'' 1 = IOError \<and>
   always_fails cast_type ''n1'' 2 = IOError \<and> always_fails cast_type ''n1'' 3 = IOError \<and>
   attempts (effects (add_service text_py living_room always_fails cast_type ''n1'')) = 1 \<and>
   attempts (effects (add_service text_py living_room always_fails cast_type ''n1'')) \<noteq> 4"
  by (simp add: add_service_def add_update_service_def resolve_def poll.simps always_fails_def
      attempts_def)

section \<open>Which callback an announcement calls\<close>

lemma calls_replicate_query [simp]:
  "calls (replicate n (Get_service_info t m) @ effs) = calls effs"
  by (induction n) (simp_all add: calls_def)

text \<open>
  C4, as amended. For every announcement that is resolved to an identity, the kind of the
  event chooses the callback: \<open>add_service\<close> calls the add callback and
  \<open>update_service\<close> the update callback, each exactly once if it is registered, with
  the identity and the name, whether or not the identity was a key before. Nothing is
  raised, and the identity is a key afterwards.
\<close>

theorem callback_follows_event_kind:
  assumes "fst (resolve py zconf typ name) = Resolved uuid model_name friendly_name host p"
  shows "calls (effects (add_service py self zconf typ name))
           = (case add_callback self of None \<Rightarrow> [] | Some cb \<Rightarrow> [Call cb uuid name None]) \<and>
         calls (effects (update_service py self zconf typ name))
           = (case update_callback self of None \<Rightarrow> [] | Some cb \<Rightarrow> [Call cb uuid name None]) \<and>
         raised (add_service py self zconf typ name) = None \<and>
         raised (update_service py self zconf typ name) = None \<and>
         uuid \<in> dom (registry (listener (add_service py self zconf typ name))) \<and>
         uuid \<in> dom (registry (listener (update_service py self zconf typ name)))"
  using assms
  by (cases "resolve py zconf typ name")
    (simp add: add_service_def update_service_def add_update_service_def Let_def call_def
      calls_def registry_def update_conv' split: option.splits)

theorem callback_follows_event_kind_witness:
  "fst (resolve text_py (announce ''U1'' ''Chromecast'' ''Living Room'') cast_type ''n3'')
     = Resolved ''U1'' (Some ''Chromecast'') (Some ''Living Room'') ''192.168.1.20'' 8009 \<and>
   calls (effects (add_service text_py living_room
       (announce ''U1'' ''Chromecast'' ''Living Room'') cast_type ''n3''))
     = [Call ''on_add'' ''U1'' ''n3'' None] \<and>
   calls (effects (update_service text_py living_room
       (announce ''U1'' ''Chromecast'' ''Living Room'') cast_type ''n3''))
     = [Call ''on_update'' ''U1'' ''n3'' None]"
  using callback_follows_event_kind [of text_py "announce ''U1'' ''Chromecast'' ''Living Room''"
      cast_type "''n3''" "''U1''" "Some ''Chromecast''" "Some ''Living Room''" "''192.168.1.20''"
      8009 living_room]
  by (simp add: resolve_announce living_room_value)

text \<open>
  C4 as stated fails in both directions: an add event for an identity that is already a
  key calls the add callback, not the update callback, and an update event for an identity
  that is not yet a key calls the update callback, not the add callback.
\<close>

theorem first_creation_counterexample:
  "''U1'' \<in> dom (registry living_room) \<and>
   update_callback living_room = Some ''on_update'' \<and>
   calls (effects (add_service text_py living_room
       (announce ''U1'' ''Chromecast'' ''Living Room'') cast_type ''n3''))
     = [Call ''on_add'' ''U1'' ''n3'' None] \<and>
   ''U2'' \<notin> dom (registry living_room) \<and>
   add_callback living_room = Some ''on_add'' \<and>
   calls (effects (update_service text_py living_room
       (announce ''U2'' ''Chromecast'' ''Kitchen'') cast_type ''n4''))
     = [Call ''on_update'' ''U2'' ''n4'' None]"
  by (simp add: living_room_value registry_def add_service_def update_service_def
      add_update_service_def resolve_announce call_def calls_def)

section \<open>The names of one identity\<close>

lemma only_key_cases:
  assumes "only_key uuid self"
  shows "services self = [] \<or> (\<exists>s. services self = [(uuid, s)] \<and> svc_names s \<noteq> {})"
proof (cases "services self")
  case Nil
  then show ?thesis by simp
next
  case (Cons e al)
  with assms have k: "fst e = uuid" and d: "fst e \<notin> fst ` set al" and s: "fst ` set al \<subseteq> {uuid}"
    and n: "svc_names (snd e) \<noteq> {}"
    by (auto simp: only_key_def wf_services_def)
  from k d s have "al = []" by (cases al) auto
  with Cons k n show ?thesis by (cases e) auto
qed

lemma only_key_init: "only_key uuid (CastListener_init a r c)"
  by (simp add: only_key_def wf_services_def CastListener_init_def)

lemma only_key_remove:
  assumes "only_key uuid self"
  shows "only_key uuid (listener (remove_service self zconf typ name)) \<and>
     names_of (listener (remove_service self zconf typ name)) uuid = names_of self uuid - {name}"
proof -
  from only_key_cases [OF assms] consider
    (empty) "services self = []"
    | (other) s where "services self = [(uuid, s)]" "svc_names s \<noteq> {}" "name \<notin> svc_names s"
    | (held) s where "services self = [(uuid, s)]" "name \<in> svc_names s"
    by blast
  then show ?thesis
  proof cases
    case empty
    then show ?thesis
      by (simp add: remove_service_def only_key_def wf_services_def names_of_def registry_def)
  next
    case other
    then show ?thesis
      by (simp add: remove_service_def only_key_def wf_services_def names_of_def registry_def)
  next
    case held
    then show ?thesis
      by (simp add: remove_service_def only_key_def wf_services_def names_of_def registry_def
          Let_def)
  qed
qed

lemma only_key_add_update:
  assumes "only_key uuid self"
    and "fst (resolve py zconf typ name) = Resolved uuid m f h p"
  shows "only_key uuid (listener (add_update_service py self zconf typ name callback)) \<and>
     names_of (listener (add_update_service py self zconf typ name callback)) uuid
       = insert name (names_of self uuid)"
  using only_key_cases [OF assms(1)] assms(2)
  by (cases "resolve py zconf typ name")
    (auto simp: add_update_service_def only_key_def wf_services_def names_of_def registry_def Let_def)

lemma names_of_deliver:
  "only_key uuid self \<Longrightarrow> list_all (refers_to py uuid) evs \<Longrightarrow>
   only_key uuid (deliver py self evs) \<and>
   names_of (deliver py self evs) uuid = names_after (names_of self uuid) evs"
proof (induction evs arbitrary: self)
  case Nil
  then show ?case by simp
next
  case (Cons ev evs)
  show ?case
  proof (cases ev)
    case (Add_service zconf t name)
    with Cons.prems obtain m f h p where
      "fst (resolve py zconf t name) = Resolved uuid m f h p"
      by (auto split: resolution.splits)
    from only_key_add_update [OF Cons.prems(1) this, of "add_callback self"] Cons Add_service
    show ?thesis by (simp add: add_service_def)
  next
    case (Update_service zconf t name)
    with Cons.prems obtain m f h p where
      "fst (resolve py zconf t name) = Resolved uuid m f h p"
      by (auto split: resolution.splits)
    from only_key_add_update [OF Cons.prems(1) this, of "update_callback self"] Cons Update_service
    show ?thesis by (simp add: update_service_def)
  next
    case (Remove_service zconf t name)
    from only_key_remove [OF Cons.prems(1), of zconf t name] Cons Remove_service
    show ?thesis by simp
  qed
qed

lemma names_after_plain:
  "\<not> added_again evs \<Longrightarrow>
   names_after names evs = (names \<union> names_added evs) - names_removed evs"
  by (induction names evs rule: names_after.induct) auto

text \<open>
  C3, as amended. Start from an empty registry and deliver events that all refer to one
  identity, every add and update being resolved. Then the name set of the identity is
  what the events leave when applied in order to the empty set (an add or update inserts
  its name, a remove deletes it), and the identity is a key exactly when that set is not
  empty. If no name is added again after a removal of it, the set is the union of the
  added names minus the removed names.
\<close>

theorem names_follow_events:
  assumes "list_all (refers_to py uuid) evs"
  shows "(let self = deliver py (CastListener_init add_cb remove_cb update_cb) evs in
     names_of self uuid = names_after {} evs \<and>
     (uuid \<in> dom (registry self) \<longleftrightarrow> names_after {} evs \<noteq> {}) \<and>
     (\<not> added_again evs \<longrightarrow> names_of self uuid = names_added evs - names_removed evs))"
proof -
  let ?init = "CastListener_init add_cb remove_cb update_cb :: ('a, 'b) CastListener"
  have e: "names_of ?init uuid = {}"
    by (simp add: names_of_def registry_def CastListener_init_def)
  from names_of_deliver [OF only_key_init assms, of add_cb remove_cb update_cb]
  have k: "only_key uuid (deliver py ?init evs)"
    and n: "names_of (deliver py ?init evs) uuid = names_after {} evs"
    by (simp_all add: e)
  from k have "wf_services (services (deliver py ?init evs))"
    by (simp add: only_key_def)
  from registry_key_iff [OF this, of uuid] n names_after_plain [of evs "{}"]
  show ?thesis by (simp add: Let_def)
qed


theorem names_follow_events_witness:
  "list_all (refers_to text_py ''U1'') handover \<and> \<not> added_again handover \<and>
   names_of (deliver text_py (CastListener_init (Some ''on_add'') None None) handover) ''U1''
     = {''n2''} \<and>
   names_added handover - names_removed handover = {''n2''}"
  using names_follow_events [of text_py "''U1''" handover "Some ''on_add''" None None]
  by (simp add: handover_def resolve_announce Let_def) auto

text \<open>
  C3 as stated fails: a name that is added, removed and added again is in the final name
  set, and not in the added names minus the removed names.
\<close>

theorem union_minus_removed_counterexample:
  "list_all (refers_to text_py ''U1'') reannounced \<and>
   names_of (deliver text_py (CastListener_init (Some ''on_add'') None None) reannounced) ''U1''
     = {''n1''} \<and>
   names_added reannounced - names_removed reannounced = {} \<and>
   names_of (deliver text_py (CastListener_init (Some ''on_add'') None None) reannounced) ''U1''
     \<noteq> names_added reannounced - names_removed reannounced"
  by (simp add: reannounced_def resolve_announce add_service_def add_update_service_def
      remove_service_def CastListener_init_def names_of_def registry_def call_def Let_def)

section \<open>Misuse and shutdown\<close>

text \<open>
  C7. Called with \<open>blocking=False\<close> and a callback that is not callable,
  \<open>get_chromecasts\<close> raises \<open>ValueError\<close> having made no listener, no zeroconf client
  and no browser, whatever the network would have announced; with a callable one it
  starts the session and returns the browser.
\<close>

theorem nonblocking_needs_callable:
  "get_chromecasts py chromecast evs False Not_callable = (Inl ValueError, []) \<and>
   get_chromecasts py chromecast evs False (Callable f) = (Inr Browsing, session_start)"
  by (simp add: get_chromecasts_def)

text \<open>
  C8, as amended. \<open>stop_discovery\<close> always calls \<open>cancel\<close> first. If that returns, or
  raises a \<open>RuntimeError\<close>, the client is closed next and only what \<open>close\<close> raises
  leaves the function; an exception of any other class leaves the function at once and
  the client is not closed.
\<close>

theorem stop_discovery_closes:
  "stop_discovery cancel_raises close_raises =
     (if cancel_raises = None \<or> cancel_raises = Some RuntimeError
      then ([Cancel, Close], close_raises)
      else ([Cancel], cancel_raises))"
  by (simp add: stop_discovery_def split: option.splits)

text \<open>
  C8 as stated fails: when \<open>cancel\<close> raises an exception that is not a
  \<open>RuntimeError\<close>, it is not suppressed and \<open>close\<close> is never called.
\<close>

theorem close_skipped_counterexample:
  "stop_discovery (Some OtherError) None = ([Cancel], Some OtherError) \<and>
   Close \<notin> set (fst (stop_discovery (Some OtherError) None)) \<and>
   snd (stop_discovery (Some OtherError) None) \<noteq> None"
  by (simp add: stop_discovery_def)

section \<open>Sessions: when the callback runs\<close>

lemma run_calls_queries [simp]:
  "run_calls callback (replicate n (Get_service_info t m) @ effs) st = run_calls callback effs st"
  by (induction n) simp_all

lemma run_calls_queries_only [simp]:
  "run_calls callback (replicate n (Get_service_info t m)) st = (st, None)"
  using run_calls_queries [of callback n t m "[]" st] by simp

lemma callbacks_dispatch:
  "add_callback (listener (dispatch py self ev)) = add_callback self \<and>
   remove_callback (listener (dispatch py self ev)) = remove_callback self \<and>
   update_callback (listener (dispatch py self ev)) = update_callback self"
  by (cases ev)
    (auto simp: add_service_def update_service_def add_update_service_def remove_service_def
      Let_def split: prod.splits resolution.splits option.splits)

lemma session_event_unannounced:
  assumes "listens st" and "announced py ev = None"
  shows "session_event callback py st ev =
     (st\<lparr>session_listener := listener (dispatch py (session_listener st) ev)\<rparr>,
      raised (dispatch py (session_listener st) ev))"
proof (cases ev)
  case (Add_service zconf t name)
  with assms show ?thesis
    by (cases "resolve py zconf t name")
      (auto simp: session_event_def add_service_def add_update_service_def Let_def
        split: resolution.splits)
next
  case (Update_service zconf t name)
  with assms show ?thesis
    by (cases "resolve py zconf t name")
      (auto simp: session_event_def update_service_def add_update_service_def Let_def listens_def
        call_def split: resolution.splits)
next
  case (Remove_service zconf t name)
  with assms show ?thesis
    by (auto simp: session_event_def remove_service_def Let_def listens_def call_def
        split: option.splits)
qed

lemma add_service_resolved:
  assumes "add_callback self = Some cb"
    and "resolve py zconf t name = (Resolved uuid model_name friendly_name h p, q)"
  shows "effects (add_service py self zconf t name)
           = replicate q (Get_service_info t name) @ [Call cb uuid name None]"
    and "raised (add_service py self zconf t name) = None"
    and "\<exists>service. registry (listener (add_service py self zconf t name)) uuid = Some service \<and>
           svc_model_name service = model_name \<and> svc_friendly_name service = friendly_name \<and>
           svc_uuid service = (case registry self uuid of None \<Rightarrow> uuid | Some s \<Rightarrow> svc_uuid s)"
  using assms
  by (simp_all add: add_service_def add_update_service_def Let_def call_def registry_def
      update_conv' split: option.splits)

lemma session_event_announced:
  assumes "listens st" and "announced py ev = Some (uuid, model_name, friendly_name)"
  shows "\<exists>name service.
     registry (listener (dispatch py (session_listener st) ev)) uuid = Some service \<and>
     svc_model_name service = model_name \<and> svc_friendly_name service = friendly_name \<and>
     svc_uuid service = (case registry (session_listener st) uuid of
                           None \<Rightarrow> uuid | Some s \<Rightarrow> svc_uuid s) \<and>
     session_event callback py st ev =
       callback (st\<lparr>session_listener := listener (dispatch py (session_listener st) ev)\<rparr>)
         uuid name"
proof (cases ev)
  case (Add_service zconf t name)
  with assms(2) obtain h p q where
    r: "resolve py zconf t name = (Resolved uuid model_name friendly_name h p, q)"
    by (cases "resolve py zconf t name") (auto split: resolution.splits)
  from assms(1) have a: "add_callback (session_listener st) = Some ()"
    by (simp add: listens_def)
  let ?out = "add_service py (session_listener st) zconf t name"
  let ?st = "st\<lparr>session_listener := listener ?out\<rparr>"
  have "session_event callback py st ev = callback ?st uuid name"
    using add_service_resolved(1,2) [OF a r] Add_service
    by (cases "callback ?st uuid name") (auto simp: session_event_def Let_def split: option.splits)
  with add_service_resolved(3) [OF a r] Add_service show ?thesis
    by auto
next
  case (Update_service zconf t name)
  with assms show ?thesis by simp
next
  case (Remove_service zconf t name)
  with assms show ?thesis by simp
qed

lemma session_run_snoc:
  "session_run callback py st (evs @ [ev]) =
     fst (session_event callback py (session_run callback py st evs) ev)"
  by (induction evs arbitrary: st) simp_all

lemma listed_callback_listener [simp]:
  "session_listener (fst (listed_callback made st uuid name)) = session_listener st"
  by (simp add: listed_callback_def Let_def split: option.splits)

lemma listens_listed_event:
  assumes "listens st"
  shows "listens (fst (session_event (listed_callback made) py st ev))"
proof (cases "announced py ev")
  case None
  from session_event_unannounced [OF assms None, of "listed_callback made"] assms
  show ?thesis by (simp add: listens_def callbacks_dispatch)
next
  case (Some a)
  obtain uuid model_name friendly_name where "a = (uuid, model_name, friendly_name)"
    by (cases a) auto
  with Some session_event_announced [OF assms, of py ev uuid model_name friendly_name
      "listed_callback made"] assms
  show ?thesis by (auto simp: listens_def callbacks_dispatch)
qed

lemma listens_init: "listens (session_init names ids)"
  by (simp add: listens_def session_init_def CastListener_init_def)

lemma listed_run_snoc:
  "listed_run py s (evs @ [ev]) = listed_event py (listed_run py s evs) ev"
  by (induction evs arbitrary: s) simp_all

lemma listed_session_snoc:
  "listed_session py names ids (evs @ [ev]) = listed_event py (listed_session py names ids evs) ev"
  by (simp add: listed_session_def listed_run_snoc)

lemma listens_listed_run:
  "listens (fst s) \<Longrightarrow> listens (fst (listed_run py s evs))"
proof (induction evs arbitrary: s)
  case Nil
  then show ?case by simp
next
  case (Cons ev evs)
  have "listens (fst (listed_event py s ev))"
    using Cons.prems by (cases s) (simp add: listed_event_def Let_def listens_listed_event)
  then show ?case using Cons.IH by simp
qed

lemma listens_listed_session: "listens (fst (listed_session py names ids evs))"
  unfolding listed_session_def by (rule listens_listed_run) (simp add: listens_init)

section \<open>\<open>discover_listed_chromecasts\<close>: what the callback does\<close>

lemma truthy_member [simp]: "(truthy xs \<and> x \<in> set (wanted xs)) = (x \<in> set (wanted xs))"
  by (auto simp: truthy_def wanted_def split: option.splits)

lemma not_truthy [simp]: "(\<not> truthy xs) = (wanted xs = [])"
  by (simp add: truthy_def wanted_def split: option.splits)

lemma wanted_map_option [simp]: "f [] = [] \<Longrightarrow> wanted (map_option f xs) = f (wanted xs)"
  by (simp add: wanted_def split: option.splits)

lemma listed_callback_step:
  assumes "map_of (services (session_listener st)) uuid = Some service"
  shows "listed_callback made st uuid name =
     (let by_id = uuid \<in> set (wanted (uuids st));
          by_name = (case svc_friendly_name service of
                       None \<Rightarrow> False
                     | Some fn \<Rightarrow> fn \<in> set (wanted (friendly_names st)));
          ids' = (if by_id then map_option (remove1 uuid) (uuids st) else uuids st);
          names' = (case svc_friendly_name service of
                      None \<Rightarrow> friendly_names st
                    | Some fn \<Rightarrow>
                        if by_name then map_option (remove1 fn) (friendly_names st)
                        else friendly_names st)
      in (st\<lparr>cc_list := (if by_id \<or> by_name
                          then AList.update uuid (hold made uuid service) (cc_list st)
                          else cc_list st),
             uuids := ids', friendly_names := names',
             discover_complete := (discover_complete st \<or> wanted ids' = [] \<and> wanted names' = [])\<rparr>,
          None))"
  using assms
  by (auto simp: listed_callback_def Let_def split: option.splits)

lemma read_hold:
  assumes "registry self uuid = Some service"
  shows "read_held self made (hold made uuid service) = service"
  using assms by (simp add: read_held_def hold_def contents_def names_of_def)

lemma listed_event_fields:
  assumes "listens st"
  shows "(let st' = fst (session_event (listed_callback made) py st ev) in
    case announced py ev of
      None \<Rightarrow>
        cc_list st' = cc_list st \<and> uuids st' = uuids st \<and>
        friendly_names st' = friendly_names st \<and> discover_complete st' = discover_complete st
    | Some (uuid, model_name, friendly_name) \<Rightarrow>
        (\<exists>service. registry (session_listener st') uuid = Some service \<and>
           svc_friendly_name service = friendly_name \<and>
           read_held (session_listener st') made (hold made uuid service) = service \<and>
           (let by_id = uuid \<in> set (wanted (uuids st));
                by_name = (case friendly_name of
                             None \<Rightarrow> False
                           | Some fn \<Rightarrow> fn \<in> set (wanted (friendly_names st)))
            in uuids st' = (if by_id then map_option (remove1 uuid) (uuids st) else uuids st) \<and>
               friendly_names st' =
                 (case friendly_name of
                    None \<Rightarrow> friendly_names st
                  | Some fn \<Rightarrow>
                      if by_name then map_option (remove1 fn) (friendly_names st)
                      else friendly_names st) \<and>
               cc_list st' = (if by_id \<or> by_name
                              then AList.update uuid (hold made uuid service) (cc_list st)
                              else cc_list st) \<and>
               discover_complete st' =
                 (discover_complete st \<or>
                  wanted (uuids st') = [] \<and> wanted (friendly_names st') = []))))"
proof (cases "announced py ev")
  case None
  from session_event_unannounced [OF assms None, of "listed_callback made"] None
  show ?thesis by simp
next
  case (Some a)
  obtain uuid model_name friendly_name where a: "a = (uuid, model_name, friendly_name)"
    by (cases a) auto
  let ?L = "listener (dispatch py (session_listener st) ev)"
  from Some a session_event_announced [OF assms, of py ev uuid model_name friendly_name
      "listed_callback made"]
  obtain name service where
    r: "registry ?L uuid = Some service" and f: "svc_friendly_name service = friendly_name"
    and e: "session_event (listed_callback made) py st ev
              = listed_callback made (st\<lparr>session_listener := ?L\<rparr>) uuid name"
    by auto
  from r have "map_of (services (session_listener (st\<lparr>session_listener := ?L\<rparr>))) uuid
                 = Some service"
    by (simp add: registry_def)
  from listed_callback_step [OF this, of made name] e r f Some a read_hold [OF r, of made]
  show ?thesis
    by (auto simp: Let_def split: option.splits)
qed

lemma listed_event_listener:
  assumes "listens st"
  shows "session_listener (fst (session_event (listed_callback made) py st ev))
     = listener (dispatch py (session_listener st) ev)"
proof (cases "announced py ev")
  case None
  from session_event_unannounced [OF assms None, of "listed_callback made"]
  show ?thesis by simp
next
  case (Some a)
  obtain uuid model_name friendly_name where "a = (uuid, model_name, friendly_name)"
    by (cases a) auto
  with Some session_event_announced [OF assms, of py ev uuid model_name friendly_name
      "listed_callback made"]
  show ?thesis by auto
qed

lemma announced_snoc:
  "(\<exists>e \<in> set (evs @ [ev]). announced py e \<noteq> None)
     = ((\<exists>e \<in> set evs. announced py e \<noteq> None) \<or> announced py ev \<noteq> None)"
  by auto

lemma listed_complete_iff:
  "(let st = fst (listed_session py names ids evs) in
     discover_complete st \<longleftrightarrow>
       (\<exists>ev \<in> set evs. announced py ev \<noteq> None) \<and>
       wanted (uuids st) = [] \<and> wanted (friendly_names st) = [])"
proof (induction evs rule: rev_induct)
  case Nil
  show ?case by (simp add: listed_session_def session_init_def)
next
  case (snoc ev evs)
  obtain st made where s: "listed_session py names ids evs = (st, made)"
    by (cases "listed_session py names ids evs") auto
  have l: "listens st" using listens_listed_session [of py names ids evs] s by simp
  let ?made = "born (session_listener st) (listener (dispatch py (session_listener st) ev)) made"
  have e: "fst (listed_session py names ids (evs @ [ev]))
      = fst (session_event (listed_callback ?made) py st ev)"
    by (simp add: listed_session_snoc s listed_event_def Let_def)
  show ?case
  proof (cases "announced py ev")
    case None
    with listed_event_fields [OF l, of ?made py ev] snoc s show ?thesis
      unfolding announced_snoc e Let_def by simp
  next
    case (Some a)
    obtain uuid model_name friendly_name where a: "a = (uuid, model_name, friendly_name)"
      by (cases a) auto
    with Some listed_event_fields [OF l, of ?made py ev] snoc s show ?thesis
      unfolding announced_snoc e Let_def
      by (auto split: option.splits if_splits)
  qed
qed

text \<open>
  C6, as amended. Take the session after any events and let one more event be handled.
  The callback is the listener's add callback only: an event that is not a resolved add
  event (an update event, a remove event, an add event given up) leaves \<open>cc_list\<close>, the
  two remaining collections and the completion signal as they are. A resolved add event
  whose identity is in the remaining identities, or whose friendly name is in the remaining
  names, stores the registry's tuple of the identity under the identity (the tuple shares
  the entry's set of names, and read at once it is the registry's tuple) and takes the
  matched key out of its collection, both keys if both match. The completion signal is set
  after the event exactly if it was set before or both remaining collections are now
  empty, \<open>None\<close> counting as empty. Hence the signal is set exactly when both are empty
  and the callback has run at least once. The tuples in \<open>cc_list\<close> are the same objects
  as before wherever \<open>cc_list\<close> is unchanged; the names read through them follow the
  registry.
\<close>

theorem listed_session_matches:
  "(case listed_session py names ids evs of (st, made) \<Rightarrow>
    case listed_session py names ids (evs @ [ev]) of (st', made') \<Rightarrow>
      discover_listed_chromecasts py names ids evs
        = (map (\<lambda>(uuid, tuple). read_held (session_listener st) made tuple) (cc_list st), st) \<and>
      session_listener st' = listener (dispatch py (session_listener st) ev) \<and>
      made' = born (session_listener st) (session_listener st') made \<and>
      (case announced py ev of
          None \<Rightarrow>
            cc_list st' = cc_list st \<and> uuids st' = uuids st \<and>
            friendly_names st' = friendly_names st \<and>
            discover_complete st' = discover_complete st
        | Some (uuid, model_name, friendly_name) \<Rightarrow>
            (\<exists>service. registry (session_listener st') uuid = Some service \<and>
               svc_friendly_name service = friendly_name \<and>
               read_held (session_listener st') made' (hold made' uuid service) = service \<and>
               (let by_id = uuid \<in> set (wanted (uuids st));
                    by_name = (case friendly_name of
                                 None \<Rightarrow> False
                               | Some fn \<Rightarrow> fn \<in> set (wanted (friendly_names st)))
                in uuids st' = (if by_id then map_option (remove1 uuid) (uuids st) else uuids st) \<and>
                   friendly_names st' =
                     (case friendly_name of
                        None \<Rightarrow> friendly_names st
                      | Some fn \<Rightarrow>
                          if by_name then map_option (remove1 fn) (friendly_names st)
                          else friendly_names st) \<and>
                   cc_list st' = (if by_id \<or> by_name
                                  then AList.update uuid (hold made' uuid service) (cc_list st)
                                  else cc_list st) \<and>
                   discover_complete st' =
                     (discover_complete st \<or>
                      wanted (uuids st') = [] \<and> wanted (friendly_names st') = [])))) \<and>
       (discover_complete st \<longleftrightarrow>
          (\<exists>e \<in> set evs. announced py e \<noteq> None) \<and>
          wanted (uuids st) = [] \<and> wanted (friendly_names st) = []))"
proof -
  obtain st made where s: "listed_session py names ids evs = (st, made)"
    by (cases "listed_session py names ids evs") auto
  have l: "listens st" using listens_listed_session [of py names ids evs] s by simp
  let ?L = "listener (dispatch py (session_listener st) ev)"
  let ?made = "born (session_listener st) ?L made"
  let ?st = "fst (session_event (listed_callback ?made) py st ev)"
  have s': "listed_session py names ids (evs @ [ev]) = (?st, ?made)"
    by (simp add: listed_session_snoc s listed_event_def Let_def)
  have L: "session_listener ?st = ?L" by (rule listed_event_listener [OF l])
  have c: "discover_complete st \<longleftrightarrow>
          (\<exists>e \<in> set evs. announced py e \<noteq> None) \<and>
          wanted (uuids st) = [] \<and> wanted (friendly_names st) = []"
    using listed_complete_iff [of py names ids evs] s by (simp add: Let_def)
  have d: "discover_listed_chromecasts py names ids evs
        = (map (\<lambda>(uuid, tuple). read_held (session_listener st) made tuple) (cc_list st), st)"
    by (simp add: discover_listed_chromecasts_def s)
  note f = listed_event_fields [OF l, of ?made py ev, unfolded Let_def]
  show ?thesis
    unfolding s s' prod.case Let_def
    using d c f by (simp only: L simp_thms)
qed

lemma listed_traces:
  "map svc_names (fst (discover_listed_chromecasts text_py None (Some [''U1'']) one_device))
     = [{''n1''}]"
  "map svc_names (fst (discover_listed_chromecasts text_py None (Some [''U1'']) two_names))
     = [{''n1'', ''n2''}]"
  "map svc_names (fst (discover_listed_chromecasts text_py None (Some [''U1'']) handover))
     = [{''n2''}]"
  "map svc_names (fst (discover_listed_chromecasts text_py None (Some [''U1'']) departed))
     = [{}]"
  "map svc_names (fst (discover_listed_chromecasts text_py None (Some [''U1'']) reannounced))
     = [{}]"
  "names_of (session_listener (snd (discover_listed_chromecasts text_py None (Some [''U1''])
       reannounced))) ''U1'' = {''n1''}"
  by (auto simp: discover_listed_chromecasts_def listed_session_def listed_event_def born_def
      session_init_def session_event_def resolve_announce Let_def wanted_def truthy_def
      registry_def names_of_def add_service_def add_update_service_def remove_service_def
      CastListener_init_def call_def listed_callback_def hold_def read_held_def contents_def
      one_device_def two_names_def handover_def departed_def reannounced_def always_fails_def)

theorem listed_session_matches_witness:
  "(case listed_session text_py None (Some [''U1'']) [] of (st, made) \<Rightarrow>
    case listed_session text_py None (Some [''U1''])
           ([] @ [Add_service (announce ''U1'' ''Chromecast'' ''Living Room'') cast_type ''n1''])
      of (st', made') \<Rightarrow>
      announced text_py (Add_service (announce ''U1'' ''Chromecast'' ''Living Room'') cast_type ''n1'')
         = Some (''U1'', Some ''Chromecast'', Some ''Living Room'') \<and>
      uuids st = Some [''U1''] \<and> \<not> discover_complete st \<and>
      uuids st' = Some [] \<and> map fst (cc_list st') = [''U1''] \<and> discover_complete st' \<and>
      made ''U1'' = 0 \<and> made' ''U1'' = 1) \<and>
   map svc_names (fst (discover_listed_chromecasts text_py None (Some [''U1'']) one_device))
     = [{''n1''}] \<and>
   map svc_names (fst (discover_listed_chromecasts text_py None (Some [''U1'']) two_names))
     = [{''n1'', ''n2''}] \<and>
   map svc_names (fst (discover_listed_chromecasts text_py None (Some [''U1'']) handover))
     = [{''n2''}] \<and>
   map svc_names (fst (discover_listed_chromecasts text_py None (Some [''U1'']) departed))
     = [{}] \<and>
   map svc_names (fst (discover_listed_chromecasts text_py None (Some [''U1'']) reannounced))
     = [{}] \<and>
   names_of (session_listener (snd (discover_listed_chromecasts text_py None (Some [''U1''])
       reannounced))) ''U1'' = {''n1''}"
  using listed_session_matches [of text_py None "Some [''U1'']" "[]"
      "Add_service (announce ''U1'' ''Chromecast'' ''Living Room'') cast_type ''n1''"]
  by (simp add: listed_traces)
    (simp add: listed_session_def listed_event_def born_def
      session_init_def session_event_def resolve_announce Let_def wanted_def truthy_def
      registry_def add_service_def add_update_service_def
      CastListener_init_def call_def listed_callback_def hold_def)

text \<open>
  C6 as stated fails twice. An update event brings the wanted friendly name, and the
  callback is not called: nothing is recorded, the name stays wanted and the signal is not
  set. And with both criteria \<open>None\<close> and no event yet, both remaining collections are
  empty and the signal is not set.
\<close>

theorem update_event_counterexample:
  "(let st = snd (discover_listed_chromecasts text_py (Some [''Living Room'']) None renamed) in
      map_option svc_friendly_name (registry (session_listener st) ''U1'')
        = Some (Some ''Living Room'') \<and>
      friendly_names st = Some [''Living Room''] \<and> cc_list st = [] \<and>
      \<not> discover_complete st) \<and>
   (let st = snd (discover_listed_chromecasts text_py None None []) in
      wanted (uuids st) = [] \<and> wanted (friendly_names st) = [] \<and> \<not> discover_complete st)"
  by (simp add: discover_listed_chromecasts_def listed_session_def listed_event_def
      session_init_def renamed_def resolve_announce
      Let_def wanted_def truthy_def registry_def session_event_def add_service_def
      update_service_def add_update_service_def CastListener_init_def call_def
      listed_callback_def)

section \<open>\<open>get_listed_chromecasts\<close>: a connection that fails\<close>







lemma store_chromecast_listener:
  "store_chromecast chromecast st uuid = (st', r) \<Longrightarrow>
   session_listener st' = session_listener st \<and> uuids st' = uuids st \<and>
   friendly_names st' = friendly_names st \<and> discover_complete st' = discover_complete st"
  by (auto simp: store_chromecast_def Let_def split: if_splits option.splits sum.splits)


lemma safe_fields [simp]:
  "safe u (st\<lparr>uuids := a\<rparr>) = safe u st"
  "safe u (st\<lparr>friendly_names := b\<rparr>) = safe u st"
  "safe u (st\<lparr>discover_complete := c\<rparr>) = safe u st"
  by (simp_all add: safe_def listens_def)







lemma connecting_body_listener:
  assumes "connecting_body chromecast friendly_name st uuid name = (st', r)"
  shows "session_listener st' = session_listener st"
proof -
  obtain sa ra where a: "store_chromecast chromecast st uuid = (sa, ra)"
    by (cases "store_chromecast chromecast st uuid") auto
  let ?s1 = "sa\<lparr>uuids := map_option (remove1 uuid) (uuids sa)\<rparr>"
  obtain sb rb where b: "store_chromecast chromecast ?s1 uuid = (sb, rb)"
    by (cases "store_chromecast chromecast ?s1 uuid") auto
  from assms a b store_chromecast_listener [OF a] store_chromecast_listener [OF b]
  show ?thesis
    by (auto simp: connecting_body_def split: if_splits option.splits)
qed

lemma connecting_callback_listener [simp]:
  "session_listener (fst (connecting_callback chromecast st uuid name)) = session_listener st"
proof (cases "map_of (services (session_listener st)) uuid")
  case None
  then show ?thesis by (simp add: connecting_callback_def)
next
  case (Some service)
  obtain st' r where
    b: "connecting_body chromecast (svc_friendly_name service) st uuid name = (st', r)"
    by (cases "connecting_body chromecast (svc_friendly_name service) st uuid name") auto
  from connecting_body_listener [OF b] Some b show ?thesis
    by (simp add: connecting_callback_def split: option.splits)
qed

lemma listens_connecting_event:
  assumes "listens st"
  shows "listens (fst (session_event (connecting_callback chromecast) py st ev))"
proof (cases "announced py ev")
  case None
  from session_event_unannounced [OF assms None, of "connecting_callback chromecast"] assms
  show ?thesis by (simp add: listens_def callbacks_dispatch)
next
  case (Some a)
  obtain uuid model_name friendly_name where "a = (uuid, model_name, friendly_name)"
    by (cases a) auto
  with Some session_event_announced [OF assms, of py ev uuid model_name friendly_name
      "connecting_callback chromecast"] assms
  show ?thesis by (auto simp: listens_def callbacks_dispatch)
qed

lemma listens_connecting_run:
  "listens st \<Longrightarrow> listens (session_run (connecting_callback chromecast) py st evs)"
  by (induction evs arbitrary: st) (simp_all add: listens_connecting_event)

lemma store_chromecast_refused:
  assumes "map_of (services (session_listener st)) uuid = Some service"
    and "svc_model_name service = Some model_name"
    and "uuid \<notin> fst ` set (cc_list st)"
    and "chromecast (length (constructed st)) service = Inl ChromecastConnectionError"
  shows "store_chromecast chromecast st uuid
     = (st\<lparr>constructed := constructed st @ [service]\<rparr>, Some ChromecastConnectionError)"
  using assms
  by (simp add: store_chromecast_def get_chromecast_from_service_def Let_def)

lemma connecting_callback_refused:
  assumes "map_of (services (session_listener st)) uuid = Some service"
    and "svc_model_name service = Some model_name"
    and "uuid \<notin> fst ` set (cc_list st)"
    and "uuid \<in> set (wanted (uuids st)) \<or>
         (\<exists>fn. svc_friendly_name service = Some fn \<and> fn \<in> set (wanted (friendly_names st)))"
    and "chromecast (length (constructed st)) service = Inl ChromecastConnectionError"
  shows "connecting_callback chromecast st uuid name
     = (st\<lparr>constructed := constructed st @ [service]\<rparr>, None)"
proof -
  have "store_chromecast chromecast st uuid
     = (st\<lparr>constructed := constructed st @ [service]\<rparr>, Some ChromecastConnectionError)"
    using assms(1,2,3,5) by (rule store_chromecast_refused [where chromecast = chromecast])
  with assms(1,4) show ?thesis
    by (auto simp: connecting_callback_def connecting_body_def)
qed


lemma connecting_event_refused:
  assumes "listens st"
    and "announced py ev = Some (uuid, Some model_name, friendly_name)"
    and "uuid \<in> set (wanted (uuids st)) \<or>
         (\<exists>fn. friendly_name = Some fn \<and> fn \<in> set (wanted (friendly_names st)))"
    and "uuid \<notin> fst ` set (cc_list st)"
    and "registry (listener (dispatch py (session_listener st) ev)) uuid = Some service"
    and "chromecast (length (constructed st)) service = Inl ChromecastConnectionError"
  shows "session_event (connecting_callback chromecast) py st ev
     = (st\<lparr>session_listener := listener (dispatch py (session_listener st) ev),
           constructed := constructed st @ [service]\<rparr>, None)"
proof -
  let ?L = "listener (dispatch py (session_listener st) ev)"
  let ?st = "st\<lparr>session_listener := ?L\<rparr>"
  from session_event_announced [OF assms(1,2), of "connecting_callback chromecast"] assms(5)
  obtain name where
    m: "svc_model_name service = Some model_name" and f: "svc_friendly_name service = friendly_name"
    and e: "session_event (connecting_callback chromecast) py st ev
              = connecting_callback chromecast ?st uuid name"
    by auto
  have 1: "map_of (services (session_listener ?st)) uuid = Some service"
    using assms(5) by (simp add: registry_def)
  have 3: "uuid \<notin> fst ` set (cc_list ?st)" using assms(4) by simp
  have 4: "uuid \<in> set (wanted (uuids ?st)) \<or>
         (\<exists>fn. svc_friendly_name service = Some fn \<and> fn \<in> set (wanted (friendly_names ?st)))"
    using assms(3) f by simp
  have 5: "chromecast (length (constructed ?st)) service = Inl ChromecastConnectionError"
    using assms(6) by simp
  have "connecting_callback chromecast ?st uuid name
     = (?st\<lparr>constructed := constructed ?st @ [service]\<rparr>, None)"
    using 1 m 3 4 5 by (rule connecting_callback_refused [where chromecast = chromecast])
  with e show ?thesis by simp
qed



section \<open>What is left in the caller's collections\<close>

lemma announced_ids_snoc:
  "announced_ids py (evs @ [ev]) =
     announced_ids py evs \<union>
     (case announced py ev of None \<Rightarrow> {} | Some (uuid, model_name, friendly_name) \<Rightarrow> {uuid})"
  by (induction evs) (auto split: option.splits)

lemma announced_names_snoc:
  "announced_names py (evs @ [ev]) =
     announced_names py evs \<union>
     (case announced py ev of
        Some (uuid, model_name, Some friendly_name) \<Rightarrow> {friendly_name}
      | _ \<Rightarrow> {})"
  by (induction evs) (auto split: option.splits)

lemma remove1_wanted:
  assumes "distinct (wanted xs)"
  shows "(if x \<in> set (wanted xs) then map_option (remove1 x) xs else xs)
     = map_option (filter (\<lambda>y. y \<noteq> x)) xs"
proof (cases xs)
  case None
  then show ?thesis by simp
next
  case (Some l)
  with assms have d: "distinct l" by (simp add: wanted_def)
  then have "remove1 x l = filter (\<lambda>y. y \<noteq> x) l"
    by (simp add: distinct_remove1_removeAll removeAll_filter_not_eq) metis
  moreover have "x \<notin> set l \<Longrightarrow> filter (\<lambda>y. y \<noteq> x) l = l"
    by (induction l) auto
  ultimately show ?thesis using Some by (simp add: wanted_def)
qed

lemma wanted_filter: "wanted (map_option (filter P) xs) = filter P (wanted xs)"
  by (simp add: wanted_def split: option.splits)

lemma remaining_after_run:
  assumes step: "\<And>st ev. listens st \<Longrightarrow> ev \<in> set evs \<Longrightarrow>
      listens (fst (session_event callback py st ev)) \<and>
      drained py st ev (fst (session_event callback py st ev))"
    and "distinct (wanted ids)" and "distinct (wanted names)"
  shows "listens (session_run callback py (session_init names ids) evs) \<and>
     uuids (session_run callback py (session_init names ids) evs)
       = map_option (filter (\<lambda>u. u \<notin> announced_ids py evs)) ids \<and>
     friendly_names (session_run callback py (session_init names ids) evs)
       = map_option (filter (\<lambda>f. f \<notin> announced_names py evs)) names"
  using step
proof (induction evs rule: rev_induct)
  case Nil
  show ?case by (simp add: listens_init) (simp add: session_init_def option.map_ident)
next
  case (snoc ev evs)
  let ?st = "session_run callback py (session_init names ids) evs"
  let ?st' = "fst (session_event callback py ?st ev)"
  have ih: "listens ?st"
    "uuids ?st = map_option (filter (\<lambda>u. u \<notin> announced_ids py evs)) ids"
    "friendly_names ?st = map_option (filter (\<lambda>f. f \<notin> announced_names py evs)) names"
    using snoc.IH snoc.prems by simp_all
  have du: "distinct (wanted (uuids ?st))" and dn: "distinct (wanted (friendly_names ?st))"
    using assms(2,3) by (simp_all add: ih wanted_filter)
  from snoc.prems [OF ih(1), of ev] have l: "listens ?st'" and d: "drained py ?st ev ?st'"
    by simp_all
  show ?case
  proof (cases "announced py ev")
    case None
    with d ih l show ?thesis
      by (simp add: session_run_snoc drained_def announced_ids_snoc announced_names_snoc)
  next
    case (Some a)
    obtain uuid model_name friendly_name where a: "a = (uuid, model_name, friendly_name)"
      by (cases a) auto
    from d Some a have u: "uuids ?st' = map_option (filter (\<lambda>y. y \<noteq> uuid)) (uuids ?st)"
      by (simp add: drained_def remove1_wanted [OF du])
    have n: "friendly_names ?st' =
        (case friendly_name of
           None \<Rightarrow> friendly_names ?st
         | Some fn \<Rightarrow> map_option (filter (\<lambda>y. y \<noteq> fn)) (friendly_names ?st))"
      using d Some a by (simp add: drained_def remove1_wanted [OF dn] split: option.splits)
    from u n l Some a show ?thesis
      by (auto simp: session_run_snoc ih announced_ids_snoc announced_names_snoc
          option.map_comp comp_def conj_commute split: option.splits)
  qed
qed


lemma listed_drained:
  assumes "listens st"
  shows "listens (fst (session_event (listed_callback made) py st ev)) \<and>
     drained py st ev (fst (session_event (listed_callback made) py st ev))"
  using listens_listed_event [OF assms, of made py ev]
    listed_event_fields [OF assms, of made py ev]
  by (auto simp: drained_def Let_def split: option.splits)

lemma listed_remaining:
  assumes "distinct (wanted ids)" and "distinct (wanted names)"
  shows "uuids (fst (listed_session py names ids evs))
       = map_option (filter (\<lambda>u. u \<notin> announced_ids py evs)) ids \<and>
     friendly_names (fst (listed_session py names ids evs))
       = map_option (filter (\<lambda>f. f \<notin> announced_names py evs)) names"
proof (induction evs rule: rev_induct)
  case Nil
  show ?case by (simp add: listed_session_def session_init_def option.map_ident)
next
  case (snoc ev evs)
  obtain st made where s: "listed_session py names ids evs = (st, made)"
    by (cases "listed_session py names ids evs") auto
  have l: "listens st" using listens_listed_session [of py names ids evs] s by simp
  let ?made = "born (session_listener st) (listener (dispatch py (session_listener st) ev)) made"
  let ?st' = "fst (session_event (listed_callback ?made) py st ev)"
  have e: "fst (listed_session py names ids (evs @ [ev])) = ?st'"
    by (simp add: listed_session_snoc s listed_event_def Let_def)
  have ih: "uuids st = map_option (filter (\<lambda>u. u \<notin> announced_ids py evs)) ids"
    "friendly_names st = map_option (filter (\<lambda>f. f \<notin> announced_names py evs)) names"
    using snoc s by simp_all
  have du: "distinct (wanted (uuids st))" and dn: "distinct (wanted (friendly_names st))"
    using assms by (simp_all add: ih wanted_filter)
  from listed_drained [OF l, of ?made py ev] have d: "drained py st ev ?st'" by simp
  show ?case
  proof (cases "announced py ev")
    case None
    with d ih show ?thesis
      by (simp add: e drained_def announced_ids_snoc announced_names_snoc)
  next
    case (Some a)
    obtain uuid model_name friendly_name where a: "a = (uuid, model_name, friendly_name)"
      by (cases a) auto
    from d Some a have u: "uuids ?st' = map_option (filter (\<lambda>y. y \<noteq> uuid)) (uuids st)"
      by (simp add: drained_def remove1_wanted [OF du])
    have n: "friendly_names ?st' =
        (case friendly_name of
           None \<Rightarrow> friendly_names st
         | Some fn \<Rightarrow> map_option (filter (\<lambda>y. y \<noteq> fn)) (friendly_names st))"
      using d Some a by (simp add: drained_def remove1_wanted [OF dn] split: option.splits)
    from u n Some a show ?thesis
      by (auto simp: e ih announced_ids_snoc announced_names_snoc
          option.map_comp comp_def conj_commute split: option.splits)
  qed
qed

lemma store_chromecast_succeeds:
  assumes "accepting chromecast"
    and "map_of (services (session_listener st)) uuid = Some service"
    and "svc_model_name service = Some model_name"
  shows "\<exists>st'. store_chromecast chromecast st uuid = (st', None)"
proof -
  from assms(1) obtain cc where "chromecast (length (constructed st)) service = Inr cc"
    by (auto simp: accepting_def)
  with assms(2,3) show ?thesis
    by (simp add: store_chromecast_def get_chromecast_from_service_def Let_def)
qed

lemma connecting_callback_drains:
  assumes "accepting chromecast"
    and "map_of (services (session_listener st)) uuid = Some service"
    and "svc_model_name service = Some model_name"
  shows "uuids (fst (connecting_callback chromecast st uuid name))
       = (if uuid \<in> set (wanted (uuids st))
          then map_option (remove1 uuid) (uuids st) else uuids st) \<and>
     friendly_names (fst (connecting_callback chromecast st uuid name))
       = (case svc_friendly_name service of
            None \<Rightarrow> friendly_names st
          | Some fn \<Rightarrow>
              if fn \<in> set (wanted (friendly_names st))
              then map_option (remove1 fn) (friendly_names st) else friendly_names st)"
proof -
  from store_chromecast_succeeds [OF assms] obtain sa where
    a: "store_chromecast chromecast st uuid = (sa, None)" by blast
  note fa = store_chromecast_listener [OF a]
  let ?s1 = "sa\<lparr>uuids := map_option (remove1 uuid) (uuids sa)\<rparr>"
  from fa assms(2) have "map_of (services (session_listener ?s1)) uuid = Some service"
    by simp
  from store_chromecast_succeeds [OF assms(1) this assms(3)] obtain sb where
    b: "store_chromecast chromecast ?s1 uuid = (sb, None)" by blast
  note fb = store_chromecast_listener [OF b]
  from a b fa fb assms(2) show ?thesis
    by (auto simp: connecting_callback_def connecting_body_def split: option.splits)
qed

lemma connecting_drained:
  assumes "listens st" and "accepting chromecast" and "has_model py ev"
  shows "listens (fst (session_event (connecting_callback chromecast) py st ev)) \<and>
     drained py st ev (fst (session_event (connecting_callback chromecast) py st ev))"
proof (cases "announced py ev")
  case None
  from session_event_unannounced [OF assms(1) None, of "connecting_callback chromecast"]
    listens_connecting_event [OF assms(1), of chromecast py ev] None
  show ?thesis by (simp add: drained_def)
next
  case (Some a)
  obtain uuid m friendly_name where a: "a = (uuid, m, friendly_name)"
    by (cases a) auto
  with Some assms(3) obtain model_name where m: "m = Some model_name"
    by (cases m) (auto simp: has_model_def)
  let ?L = "listener (dispatch py (session_listener st) ev)"
  let ?st = "st\<lparr>session_listener := ?L\<rparr>"
  from Some a m session_event_announced [OF assms(1), of py ev uuid "Some model_name"
      friendly_name "connecting_callback chromecast"]
  obtain name service where
    r: "registry ?L uuid = Some service" and sm: "svc_model_name service = Some model_name"
    and sf: "svc_friendly_name service = friendly_name"
    and e: "session_event (connecting_callback chromecast) py st ev
              = connecting_callback chromecast ?st uuid name"
    by auto
  from r have "map_of (services (session_listener ?st)) uuid = Some service"
    by (simp add: registry_def)
  from connecting_callback_drains [OF assms(2) this sm, of name] e sf Some a
    listens_connecting_event [OF assms(1), of chromecast py ev]
  show ?thesis by (auto simp: drained_def split: option.splits)
qed

lemma refused_keeps_criteria:
  assumes "announced py ev = Some (uuid, Some model_name, friendly_name)"
    and "uuid \<in> set (wanted (uuids st)) \<or>
         (\<exists>fn. friendly_name = Some fn \<and> fn \<in> set (wanted (friendly_names st)))"
    and "uuid \<notin> fst ` set (cc_list st)"
    and "registry (listener (dispatch py (session_listener st) ev)) uuid = Some service"
    and "chromecast (length (constructed st)) service = Inl ChromecastConnectionError"
    and "st = session_run (connecting_callback chromecast) py (session_init names ids) evs"
  shows "uuids (session_run (connecting_callback chromecast) py (session_init names ids)
            (evs @ [ev])) = uuids st \<and>
         friendly_names (session_run (connecting_callback chromecast) py (session_init names ids)
            (evs @ [ev])) = friendly_names st"
proof -
  have "listens st"
    unfolding assms(6) by (rule listens_connecting_run [OF listens_init])
  then have "session_event (connecting_callback chromecast) py st ev
     = (st\<lparr>session_listener := listener (dispatch py (session_listener st) ev),
           constructed := constructed st @ [service]\<rparr>, None)"
    using assms(1-5) by (rule connecting_event_refused [where chromecast = chromecast])
  then show ?thesis
    by (simp add: session_run_snoc assms(6) [symmetric])
qed

text \<open>
  C10, as amended. Both functions work on the caller's own collections, which therefore
  hold afterwards what the callback has left in them; nothing else that the caller passes
  can be changed (the other arguments are numbers or \<open>None\<close>). For collections without
  duplicates: after \<open>discover_listed_chromecasts\<close> they hold, in their order, exactly
  the identities and friendly names that no resolved add event has carried; and so they
  do after \<open>get_listed_chromecasts\<close> when every announcement has a model name and no
  construction of a \<open>Chromecast\<close> fails. An add event that matches a criterion and whose
  construction raises \<open>ChromecastConnectionError\<close> leaves both collections as they are.
\<close>

theorem caller_collections_drained:
  assumes "distinct (wanted ids)" and "distinct (wanted names)"
  shows "(let st = snd (discover_listed_chromecasts py names ids evs) in
            uuids st = map_option (filter (\<lambda>u. u \<notin> announced_ids py evs)) ids \<and>
            friendly_names st = map_option (filter (\<lambda>f. f \<notin> announced_names py evs)) names) \<and>
         (accepting chromecast \<and> list_all (has_model py) evs \<longrightarrow>
           (let st = snd (get_listed_chromecasts py chromecast names ids evs) in
              uuids st = map_option (filter (\<lambda>u. u \<notin> announced_ids py evs)) ids \<and>
              friendly_names st
                = map_option (filter (\<lambda>f. f \<notin> announced_names py evs)) names)) \<and>
         (let st = snd (get_listed_chromecasts py chromecast names ids evs);
              st' = snd (get_listed_chromecasts py chromecast names ids (evs @ [ev]))
          in announced py ev = Some (uuid, Some model_name, friendly_name) \<and>
             (uuid \<in> set (wanted (uuids st)) \<or>
                (\<exists>fn. friendly_name = Some fn \<and> fn \<in> set (wanted (friendly_names st)))) \<and>
             uuid \<notin> fst ` set (cc_list st) \<and>
             registry (listener (dispatch py (session_listener st) ev)) uuid = Some service \<and>
             chromecast (length (constructed st)) service = Inl ChromecastConnectionError
             \<longrightarrow> uuids st' = uuids st \<and> friendly_names st' = friendly_names st)"
proof (intro conjI)
  have "snd (discover_listed_chromecasts py names ids evs) = fst (listed_session py names ids evs)"
    by (simp add: discover_listed_chromecasts_def split: prod.splits)
  with listed_remaining [OF assms, of py evs]
  show "let st = snd (discover_listed_chromecasts py names ids evs) in
            uuids st = map_option (filter (\<lambda>u. u \<notin> announced_ids py evs)) ids \<and>
            friendly_names st = map_option (filter (\<lambda>f. f \<notin> announced_names py evs)) names"
    by (simp add: Let_def)
next
  show "accepting chromecast \<and> list_all (has_model py) evs \<longrightarrow>
           (let st = snd (get_listed_chromecasts py chromecast names ids evs) in
              uuids st = map_option (filter (\<lambda>u. u \<notin> announced_ids py evs)) ids \<and>
              friendly_names st
                = map_option (filter (\<lambda>f. f \<notin> announced_names py evs)) names)"
  proof
    assume h: "accepting chromecast \<and> list_all (has_model py) evs"
    then have "\<And>st ev. listens st \<Longrightarrow> ev \<in> set evs \<Longrightarrow>
        listens (fst (session_event (connecting_callback chromecast) py st ev)) \<and>
        drained py st ev (fst (session_event (connecting_callback chromecast) py st ev))"
      by (intro connecting_drained) (auto simp: list_all_iff)
    from remaining_after_run [OF this assms]
    show "let st = snd (get_listed_chromecasts py chromecast names ids evs) in
              uuids st = map_option (filter (\<lambda>u. u \<notin> announced_ids py evs)) ids \<and>
              friendly_names st = map_option (filter (\<lambda>f. f \<notin> announced_names py evs)) names"
      by (simp add: get_listed_chromecasts_def Let_def)
  qed
next
  show "let st = snd (get_listed_chromecasts py chromecast names ids evs);
              st' = snd (get_listed_chromecasts py chromecast names ids (evs @ [ev]))
          in announced py ev = Some (uuid, Some model_name, friendly_name) \<and>
             (uuid \<in> set (wanted (uuids st)) \<or>
                (\<exists>fn. friendly_name = Some fn \<and> fn \<in> set (wanted (friendly_names st)))) \<and>
             uuid \<notin> fst ` set (cc_list st) \<and>
             registry (listener (dispatch py (session_listener st) ev)) uuid = Some service \<and>
             chromecast (length (constructed st)) service = Inl ChromecastConnectionError
             \<longrightarrow> uuids st' = uuids st \<and> friendly_names st' = friendly_names st"
    unfolding get_listed_chromecasts_def Let_def snd_conv
    using refused_keeps_criteria [where chromecast = chromecast and py = py and ev = ev
        and uuid = uuid and model_name = model_name and friendly_name = friendly_name
        and service = service and names = names and ids = ids and evs = evs, OF _ _ _ _ _ refl]
    by blast
qed

theorem caller_collections_drained_witness:
  "distinct (wanted (Some [''U1'', ''U3''])) \<and> distinct (wanted (Some [''Kitchen''])) \<and>
   accepting welcoming \<and> list_all (has_model text_py) two_devices \<and>
   uuids (snd (discover_listed_chromecasts text_py (Some [''Kitchen''])
       (Some [''U1'', ''U3'']) two_devices)) = Some [''U3''] \<and>
   friendly_names (snd (discover_listed_chromecasts text_py (Some [''Kitchen''])
       (Some [''U1'', ''U3'']) two_devices)) = Some [] \<and>
   uuids (snd (get_listed_chromecasts text_py welcoming (Some [''Kitchen''])
       (Some [''U1'', ''U3'']) two_devices)) = Some [''U3''] \<and>
   friendly_names (snd (get_listed_chromecasts text_py welcoming (Some [''Kitchen''])
       (Some [''U1'', ''U3'']) two_devices)) = Some [] \<and>
   (let st = snd (get_listed_chromecasts text_py picky (Some [''Kitchen''])
                (Some [''U1'', ''U3'']) []);
        ev = Add_service (announce ''U1'' ''Chromecast'' ''Living Room'') cast_type ''n1'';
        service = \<lparr>svc_names = {''n1''}, svc_uuid = ''U1'', svc_model_name = Some ''Chromecast'',
                   svc_friendly_name = Some ''Living Room'', svc_host = ''192.168.1.20'',
                   svc_port = 8009\<rparr>
    in announced text_py ev = Some (''U1'', Some ''Chromecast'', Some ''Living Room'') \<and>
       ''U1'' \<in> set (wanted (uuids st)) \<and> ''U1'' \<notin> fst ` set (cc_list st) \<and>
       registry (listener (dispatch text_py (session_listener st) ev)) ''U1'' = Some service \<and>
       picky (length (constructed st)) service = Inl ChromecastConnectionError \<and>
       uuids (snd (get_listed_chromecasts text_py picky (Some [''Kitchen''])
                (Some [''U1'', ''U3'']) ([] @ [ev]))) = Some [''U1'', ''U3''] \<and>
       friendly_names (snd (get_listed_chromecasts text_py picky (Some [''Kitchen''])
                (Some [''U1'', ''U3'']) ([] @ [ev]))) = Some [''Kitchen''])"
  using caller_collections_drained [of "Some [''U1'', ''U3'']" "Some [''Kitchen'']" text_py
      two_devices welcoming]
    caller_collections_drained [of "Some [''U1'', ''U3'']" "Some [''Kitchen'']" text_py
      "[]" picky "Add_service (announce ''U1'' ''Chromecast'' ''Living Room'') cast_type ''n1''"
      "''U1''" "''Chromecast''" "Some ''Living Room''"
      "\<lparr>svc_names = {''n1''}, svc_uuid = ''U1'', svc_model_name = Some ''Chromecast'',
        svc_friendly_name = Some ''Living Room'', svc_host = ''192.168.1.20'',
        svc_port = 8009\<rparr>"]
  by (simp add: wanted_def accepting_def welcoming_def has_model_def two_devices_def
      resolve_announce Let_def get_listed_chromecasts_def session_init_def registry_def
      add_service_def add_update_service_def CastListener_init_def call_def picky_def)

text \<open>
  C10 as stated fails. In \<open>get_listed_chromecasts\<close> an add event matches the wanted
  identity, the connection fails, and the identity stays in the caller's list; and of an
  identity that the caller's list holds twice, one matching event removes one occurrence
  only.
\<close>

theorem matched_key_stays_counterexample:
  "''U1'' \<in> announced_ids text_py one_device \<and>
   uuids (snd (get_listed_chromecasts text_py picky None (Some [''U1'']) one_device))
     = Some [''U1''] \<and>
   uuids (snd (discover_listed_chromecasts text_py None (Some [''U1'', ''U1'']) one_device))
     = Some [''U1'']"
  by (simp add: get_listed_chromecasts_def discover_listed_chromecasts_def session_init_def
      one_device_def resolve_announce Let_def wanted_def truthy_def session_event_def
      add_service_def add_update_service_def CastListener_init_def call_def
      connecting_callback_def connecting_body_def store_chromecast_def
      get_chromecast_from_service_def picky_def listed_callback_def listed_session_def
      listed_event_def)

end
